theory Spec2Isabelle
  imports Complex_Main "HOL-Library.Char_ord" "HOL-Library.List_Lexorder" "HOL-Library.Log_Nat"
begin

section \<open>Strings and decimals\<close>

text \<open>
  Python strings are modelled as Isabelle strings: lists of characters with code points
  below 256. Within that range the characters that \<^verbatim>\<open>str.strip()\<close> removes are the
  twelve listed in \<open>is_space\<close>, and the only characters matched by the regular expression
  class \<^verbatim>\<open>\d\<close> are the ASCII digits.
\<close>

definition is_space :: "char \<Rightarrow> bool" where
  "is_space c = (of_char c \<in> {9, 10, 11, 12, 13, 28, 29, 30, 31, 32, 133, 160 :: nat})"

definition is_digit :: "char \<Rightarrow> bool" where
  "is_digit c = (48 \<le> (of_char c :: nat) \<and> (of_char c :: nat) \<le> 57)"

definition digit_val :: "char \<Rightarrow> nat" where
  "digit_val c = of_char c - 48"

definition digit_char :: "nat \<Rightarrow> char" where
  "digit_char d = char_of (48 + d)"

text \<open>\<^verbatim>\<open>s.strip()\<close>: leading and trailing whitespace removed.\<close>

definition strip :: "string \<Rightarrow> string" where
  "strip s = rev (dropWhile is_space (rev (dropWhile is_space s)))"

text \<open>\<^verbatim>\<open>s.replace(old, new)\<close> for a one-character \<open>old\<close>.\<close>

definition replace :: "char \<Rightarrow> string \<Rightarrow> string \<Rightarrow> string" where
  "replace old new s = concat (map (\<lambda>c. if c = old then new else [c]) s)"

text \<open>The value of a string of decimal digits, most significant digit first.\<close>

definition nat_of_digits :: "string \<Rightarrow> nat" where
  "nat_of_digits ds = foldl (\<lambda>a c. 10 * a + digit_val c) 0 ds"

text \<open>
  A \<^verbatim>\<open>decimal.Decimal\<close> with a non-positive exponent: the number \<open>coeff / 10 ^ scale\<close>.
  Python compares decimals by their numeric value (\<open>dec_val\<close>), so \<^verbatim>\<open>Decimal("2.50")\<close> and
  \<^verbatim>\<open>Decimal("2.5")\<close> are equal although their digits differ.
\<close>

record decimal =
  coeff :: int
  scale :: nat

definition dec_val :: "decimal \<Rightarrow> rat" where
  "dec_val d = of_int (coeff d) / 10 ^ scale d"

text \<open>
  \<^verbatim>\<open>Decimal(cleaned)\<close> on a string that the amount pattern has accepted: surrounding
  whitespace is ignored, the digits before and after the period form the coefficient, and
  the number of digits after the period is the scale.
\<close>

definition py_Decimal :: "string \<Rightarrow> decimal" where
  "py_Decimal s =
     (let t = strip s;
          ip = takeWhile is_digit t;
          fp = (case dropWhile is_digit t of [] \<Rightarrow> [] | c # r \<Rightarrow> r)
      in \<lparr>coeff = int (nat_of_digits (ip @ fp)), scale = length fp\<rparr>)"

section \<open>services/transaction\_service.py: parse\_amount\<close>

text \<open>
  \<^verbatim>\<open>re.match(r'^\d+\.?\d*$', cleaned)\<close>. The greedy \<^verbatim>\<open>\d+\<close> takes the longest prefix of
  digits; since the next character, if any, is no digit, backtracking cannot find another
  match. \<^verbatim>\<open>$\<close> matches at the end of the string and before a final newline.
\<close>

definition amount_re_match :: "string \<Rightarrow> bool" where
  "amount_re_match s =
     (let ds = takeWhile is_digit s;
          r1 = dropWhile is_digit s;
          r2 = (case r1 of [] \<Rightarrow> [] | c # r \<Rightarrow> if c = CHR ''.'' then r else r1);
          r3 = dropWhile is_digit r2
      in ds \<noteq> [] \<and> (r3 = [] \<or> r3 = [CHR 0x0A]))"

text \<open>\<^verbatim>\<open>cleaned = amount_str.strip().replace(' ', '').replace(',', '.')\<close>\<close>

definition clean_amount :: "string \<Rightarrow> string" where
  "clean_amount amount_str = replace (CHR '','') ''.'' (replace (CHR '' '') [] (strip amount_str))"

text \<open>
  \<open>parse_amount\<close> returns \<open>None\<close> where the source returns \<^verbatim>\<open>None\<close>. The handler of
  \<^verbatim>\<open>ValueError\<close> and \<^verbatim>\<open>TypeError\<close> is never entered for a string argument.
\<close>

definition parse_amount :: "string \<Rightarrow> decimal option" where
  "parse_amount amount_str =
     (let cleaned = clean_amount amount_str
      in if \<not> amount_re_match cleaned then None else Some (py_Decimal cleaned))"

text \<open>
  The accepted form in the words of the specification: digits, optionally one period,
  optionally trailing digits.
\<close>

definition spec_amount_form :: "string \<Rightarrow> bool" where
  "spec_amount_form t =
     (\<exists>ds p fs. t = ds @ p @ fs \<and> ds \<noteq> [] \<and> list_all is_digit ds \<and>
        (p = [] \<or> p = ''.'') \<and> list_all is_digit fs)"

section \<open>storage/models.py: transactions\<close>

datatype TransactionKind = EXPENSE | INCOME

text \<open>
  A row of the table \<^verbatim>\<open>transactions\<close>. Timestamps are counted in microseconds, the
  resolution of \<^verbatim>\<open>datetime\<close>. The column \<^verbatim>\<open>id\<close> is the primary key.
\<close>

record transaction =
  tx_id :: nat
  user_id :: int
  kind :: TransactionKind
  category_id :: nat
  subcategory_id :: "nat option"
  amount :: decimal
  currency :: string
  comment :: "string option"
  created_at :: int
  effective_at :: int

text \<open>The table with its autoincrement counter.\<close>

record db =
  rows :: "transaction list"
  next_tx_id :: nat

text \<open>The exceptions that the modelled code raises or lets through.\<close>

datatype exn =
  AttributeError | KeyError | TypeError | IndexError
  | PersistenceError | MultipleResultsFound | WorkbookError

section \<open>main.py: the amount step of the dialogue\<close>

datatype TransactionStates =
  waiting_for_category | waiting_for_subcategory | waiting_for_comment
  | waiting_for_amount | waiting_for_confirmation

text \<open>
  The texts that \<open>process_amount\<close> sends: the two error prompts. The text of the
  confirmation is built but never sent, see \<open>process_amount\<close>.
\<close>

datatype bot_text = Bad_format_prompt | Not_positive_prompt

text \<open>
  The dictionary kept by the FSM context. A key that is absent and a key bound to
  \<^verbatim>\<open>None\<close> are both \<open>None\<close>; the handlers read these keys with \<^verbatim>\<open>get\<close>, except
  \<^verbatim>\<open>kind\<close> and \<^verbatim>\<open>category_name\<close>, which are never bound to \<^verbatim>\<open>None\<close>.
\<close>

record fsm_data =
  d_kind :: "string option"
  d_category_id :: "nat option"
  d_category_name :: "string option"
  d_subcategory_id :: "nat option"
  d_subcategory_name :: "string option"
  d_comment :: "string option"
  d_amount :: "decimal option"
  last_bot_message_id :: "nat option"

text \<open>The chat: the messages of the bot and of the user that have not been deleted.\<close>

record chat =
  bot_live :: "(nat \<times> bot_text) list"
  user_live :: "nat list"
  next_message_id :: nat

record world =
  fsm_state :: "TransactionStates option"
  fsm_data :: fsm_data
  the_chat :: chat
  the_db :: db

record message =
  message_id :: nat
  message_text :: "string option"

datatype outcome = Returned | Raised exn

text \<open>\<^verbatim>\<open>bot.delete_message\<close> and \<^verbatim>\<open>message.delete\<close>; both callers swallow every exception.\<close>

definition delete_message :: "nat \<Rightarrow> chat \<Rightarrow> chat" where
  "delete_message mid c = c\<lparr>bot_live := filter (\<lambda>m. fst m \<noteq> mid) (bot_live c)\<rparr>"

definition delete_user_message :: "nat \<Rightarrow> chat \<Rightarrow> chat" where
  "delete_user_message mid c = c\<lparr>user_live := filter (\<lambda>m. m \<noteq> mid) (user_live c)\<rparr>"

text \<open>
  utils/message\_utils.py, \<^verbatim>\<open>_send_step_message\<close>: retire the previous bot message, if its
  stored id is truthy, send the new one and store its id.
\<close>

definition send_step_message :: "bot_text \<Rightarrow> world \<Rightarrow> world" where
  "send_step_message t w =
     (let c1 = (case last_bot_message_id (fsm_data w) of
                  None \<Rightarrow> the_chat w
                | Some prev_id \<Rightarrow> if prev_id = 0 then the_chat w
                                  else delete_message prev_id (the_chat w));
          mid = next_message_id c1;
          c2 = c1\<lparr>bot_live := bot_live c1 @ [(mid, t)], next_message_id := Suc mid\<rparr>
      in w\<lparr>the_chat := c2, fsm_data := (fsm_data w)\<lparr>last_bot_message_id := Some mid\<rparr>\<rparr>)"

text \<open>
  \<open>process_amount\<close>, the handler registered for the state \<open>waiting_for_amount\<close>. A message
  without text makes \<^verbatim>\<open>parse_amount\<close> raise \<^verbatim>\<open>AttributeError\<close>; a draft without kind or
  category name makes the confirmation raise \<^verbatim>\<open>KeyError\<close>, after the amount is stored.
  With a positive amount the handler builds the text of the confirmation, sets the state
  \<open>waiting_for_confirmation\<close> and then calls \<^verbatim>\<open>get_confirm_keyboard("transaction")\<close>, a
  function of two required parameters (keyboards/categories.py), with one argument: the call
  raises \<^verbatim>\<open>TypeError\<close> before \<^verbatim>\<open>_send_step_message\<close> is entered, so nothing is sent.
\<close>

definition process_amount :: "message \<Rightarrow> world \<Rightarrow> outcome \<times> world" where
  "process_amount m w =
     (let w1 = w\<lparr>the_chat := delete_user_message (message_id m) (the_chat w)\<rparr> in
      case message_text m of
        None \<Rightarrow> (Raised AttributeError, w1)
      | Some t \<Rightarrow>
         (case parse_amount t of
            None \<Rightarrow> (Returned, send_step_message Bad_format_prompt w1)
          | Some a \<Rightarrow>
              if dec_val a \<le> 0 then (Returned, send_step_message Not_positive_prompt w1)
              else
                (let d = fsm_data w1;
                     w2 = w1\<lparr>fsm_data := d\<lparr>d_amount := Some a\<rparr>\<rparr> in
                 case d_kind d of
                   None \<Rightarrow> (Raised KeyError, w2)
                 | Some k \<Rightarrow>
                    (case d_category_name d of
                       None \<Rightarrow> (Raised KeyError, w2)
                     | Some cn \<Rightarrow>
                        (Raised TypeError,
                         w2\<lparr>fsm_state := Some waiting_for_confirmation\<rparr>)))))"

section \<open>services/transaction\_service.py: the repository\<close>

text \<open>
  The commit of the session either succeeds or raises; the argument \<open>commit_ok\<close> says
  which. \<open>now\<close> is the reading of the clock (\<^verbatim>\<open>datetime.utcnow()\<close>). The model of
  \<open>create_transaction\<close> is coarser than the database in three places: it reads the clock once
  for both timestamps (the column default of \<^verbatim>\<open>created_at\<close> is a later reading), it keeps
  the amount as given (the column \<^verbatim>\<open>Numeric(12, 2)\<close> has two decimals), and it takes the id
  from a counter that never decreases. The properties below of deletion and undo are
  stated for any table with unique ids and do not rest on these.
\<close>

definition create_transaction ::
  "bool \<Rightarrow> int \<Rightarrow> int \<Rightarrow> TransactionKind \<Rightarrow> nat \<Rightarrow> nat option \<Rightarrow> decimal \<Rightarrow> string option \<Rightarrow>
   string \<Rightarrow> int option \<Rightarrow> db \<Rightarrow> exn + (transaction \<times> db)" where
  "create_transaction commit_ok now uid k cid sid amt cmt cur eff d =
     (if \<not> commit_ok then Inl PersistenceError
      else
        (let t = \<lparr>tx_id = next_tx_id d, user_id = uid, kind = k, category_id = cid,
                  subcategory_id = sid, amount = amt, currency = cur, comment = cmt,
                  created_at = now,
                  effective_at = (case eff of None \<Rightarrow> now | Some e \<Rightarrow> e)\<rparr>
         in Inr (t, \<lparr>rows = rows d @ [t], next_tx_id = Suc (next_tx_id d)\<rparr>)))"

text \<open>
  The invariant of the table: the primary key is unique, and the ids handed out so far lie
  below the autoincrement counter.
\<close>

definition db_ok :: "db \<Rightarrow> bool" where
  "db_ok d = (distinct (map tx_id (rows d)) \<and> (\<forall>t \<in> set (rows d). tx_id t < next_tx_id d))"

text \<open>
  \<open>delete_transaction_by_id\<close>: \<^verbatim>\<open>scalar_one_or_none\<close> raises when the query has more than
  one row; a failed commit is caught, rolled back and reported as \<^verbatim>\<open>False\<close>.
\<close>

definition delete_transaction_by_id :: "bool \<Rightarrow> int \<Rightarrow> nat \<Rightarrow> db \<Rightarrow> exn + (bool \<times> db)" where
  "delete_transaction_by_id commit_ok uid transaction_id d =
     (case filter (\<lambda>t. tx_id t = transaction_id) (rows d) of
        [] \<Rightarrow> Inr (False, d)
      | [t] \<Rightarrow>
          if user_id t \<noteq> uid then Inr (False, d)
          else if commit_ok
            then Inr (True, d\<lparr>rows := filter (\<lambda>r. tx_id r \<noteq> tx_id t) (rows d)\<rparr>)
            else Inr (False, d)
      | _ \<Rightarrow> Inl MultipleResultsFound)"

text \<open>
  \<open>delete_last_transaction\<close>: the rows of the user created at or after the cutoff, newest
  first, limited to one. Among rows with the same creation time the database may return
  any; the model returns the first in table order. A failed commit is not caught here.
\<close>

definition delete_last_transaction ::
  "bool \<Rightarrow> int \<Rightarrow> int \<Rightarrow> int \<Rightarrow> db \<Rightarrow> exn + (transaction option \<times> db)" where
  "delete_last_transaction commit_ok now uid minutes d =
     (let cutoff_time = now - minutes * 60000000;
          found = sort_key (\<lambda>t. - created_at t)
                    (filter (\<lambda>t. user_id t = uid \<and> created_at t \<ge> cutoff_time) (rows d))
      in case found of
           [] \<Rightarrow> Inr (None, d)
         | t # _ \<Rightarrow>
             if commit_ok
             then Inr (Some t, d\<lparr>rows := filter (\<lambda>r. tx_id r \<noteq> tx_id t) (rows d)\<rparr>)
             else Inl PersistenceError)"

text \<open>main.py, \<open>cmd_undo\<close>: the reply names the amount, currency and category, or says
  that there is nothing to undo.\<close>

datatype undo_reply = Undo_done decimal string nat | Nothing_to_undo

definition cmd_undo :: "bool \<Rightarrow> int \<Rightarrow> int \<Rightarrow> db \<Rightarrow> exn + (undo_reply \<times> db)" where
  "cmd_undo commit_ok now uid d =
     (case delete_last_transaction commit_ok now uid 5 d of
        Inl e \<Rightarrow> Inl e
      | Inr (None, d') \<Rightarrow> Inr (Nothing_to_undo, d')
      | Inr (Some t, d') \<Rightarrow> Inr (Undo_done (amount t) (currency t) (category_id t), d'))"

section \<open>handlers/recent.py: the browser of recent transactions\<close>

text \<open>
  \<^verbatim>\<open>_fetch_recent\<close>: the kind filter applies only when \<open>kind\<close> is one of the two enum
  values; the rows are ordered by \<^verbatim>\<open>effective_at\<close>, newest first.
\<close>

definition fetch_recent :: "db \<Rightarrow> int \<Rightarrow> string option \<Rightarrow> nat \<Rightarrow> nat \<Rightarrow> transaction list" where
  "fetch_recent d uid knd offset limit =
     (let q = filter (\<lambda>t. user_id t = uid) (rows d);
          q2 = (if knd = Some ''expense'' then filter (\<lambda>t. kind t = EXPENSE) q
                else if knd = Some ''income'' then filter (\<lambda>t. kind t = INCOME) q
                else q)
      in take limit (drop offset (sort_key (\<lambda>t. - effective_at t) q2)))"

text \<open>\<^verbatim>\<open>str(n)\<close> for a natural number.\<close>

fun digits_of_nat :: "nat \<Rightarrow> string" where
  "digits_of_nat n =
     (if n < 10 then [digit_char n] else digits_of_nat (n div 10) @ [digit_char (n mod 10)])"

declare digits_of_nat.simps [simp del]





section \<open>services/report\_service.py: the amount cell of a rendered table\<close>

text \<open>
  \<^verbatim>\<open>f"{x:,.2f}"\<close> for a decimal that is not negative: the value is rounded to two
  places, ties to even (the rounding of the default decimal context); the integer part is
  written with a comma before every group of three digits, then the period and the two
  fractional digits. \<open>round_hundredths\<close> is the rounded value counted in hundredths.
\<close>

definition round_hundredths :: "decimal \<Rightarrow> nat" where
  "round_hundredths d =
     (let n = nat (coeff d); k = scale d
      in if k \<le> 2 then n * 10 ^ (2 - k)
         else (let p = 10 ^ (k - 2); q = n div p; r = n mod p
               in if 2 * r < p then q
                  else if p < 2 * r then q + 1
                  else if even q then q else q + 1))"

function group_thousands :: "string \<Rightarrow> string" where
  "group_thousands ds =
     (if length ds \<le> 3 then ds
      else group_thousands (take (length ds - 3) ds) @ '','' @ drop (length ds - 3) ds)"
  by pat_completeness auto
termination
  by (relation "measure length") auto

declare group_thousands.simps [simp del]

definition format_comma_2f :: "decimal \<Rightarrow> string" where
  "format_comma_2f x =
     (let h = round_hundredths x
      in group_thousands (digits_of_nat (h div 100)) @ ''.'' @
         [digit_char (h mod 100 div 10), digit_char (h mod 10)])"

text \<open>
  \<^verbatim>\<open>_render_table_on_axis\<close>, the cell of the amount column:
  \<^verbatim>\<open>f"{x:,.2f}".replace(',', ' ').replace('.', ',')\<close>
\<close>

definition amount_cell :: "decimal \<Rightarrow> string" where
  "amount_cell x = replace (CHR ''.'') '','' (replace (CHR '','') '' '' (format_comma_2f x))"

section \<open>services/report\_service.py: the report\<close>

subsection \<open>Binary floating point\<close>

text \<open>
  The amount column of a report holds \<^verbatim>\<open>float(t.amount)\<close>, a binary64 number. A finite
  binary64 number is kept here as the rational number it denotes, and \<open>float64\<close> rounds a
  rational number to the nearest binary64 number, ties to the even significand, as the
  conversion from \<^verbatim>\<open>Decimal\<close> and the addition of floats do. The range of the exponent
  is not modelled (no overflow, no subnormal numbers): the amounts of the table are far
  inside it.
\<close>

definition round_half_even :: "rat \<Rightarrow> int" where
  "round_half_even x =
     (let f = \<lfloor>x\<rfloor>; r = x - of_int f
      in if r < 1 / 2 then f else if 1 / 2 < r then f + 1 else if even f then f else f + 1)"

definition pow2 :: "int \<Rightarrow> rat" where
  "pow2 e = (if 0 \<le> e then 2 ^ nat e else 1 / 2 ^ nat (- e))"

text \<open>The exponent \<open>e\<close> with \<open>2 ^ e \<le> \<bar>x\<bar> < 2 ^ (e + 1)\<close>, for \<open>x\<close> other than zero.\<close>

definition binary_exponent :: "rat \<Rightarrow> int" where
  "binary_exponent x =
     (if 1 \<le> \<bar>x\<bar> then bitlen \<lfloor>\<bar>x\<bar>\<rfloor> - 1 else - bitlen (\<lceil>1 / \<bar>x\<bar>\<rceil> - 1))"

definition float64 :: "rat \<Rightarrow> rat" where
  "float64 x =
     (if x = 0 then 0
      else (let u = pow2 (binary_exponent x - 52)
            in of_int (round_half_even (x / u)) * u))"

text \<open>The sum of floats from left to right, each addition rounded.\<close>

definition float_sum :: "rat list \<Rightarrow> rat" where
  "float_sum xs = foldl (\<lambda>a x. float64 (a + x)) 0 xs"

subsection \<open>The data frame\<close>

text \<open>\<^verbatim>\<open>_sanitize\<close>: the empty string for no text, else the text without the code points
  from U+10000 to U+10FFFF.\<close>

definition sanitize :: "string option \<Rightarrow> string" where
  "sanitize t =
     (case t of
        None \<Rightarrow> []
      | Some s \<Rightarrow> filter (\<lambda>c. \<not> (0x10000 \<le> (of_char c :: nat) \<and> (of_char c :: nat) \<le> 0x10FFFF)) s)"

text \<open>
  A row of the data frame built by \<^verbatim>\<open>_build_dataframe\<close>. The date column keeps the
  timestamp; its text form is not needed here. The amount column is \<^verbatim>\<open>float(t.amount)\<close>.
\<close>

record df_row =
  r_date :: int
  r_category :: string
  r_subcategory :: string
  r_amount :: rat
  r_currency :: string
  r_comment :: string

definition build_dataframe :: "transaction list \<Rightarrow> (nat \<rightharpoonup> string) \<Rightarrow> df_row list" where
  "build_dataframe transactions category_map =
     map (\<lambda>t. \<lparr>r_date = effective_at t,
               r_category = (case category_map (category_id t) of
                               Some n \<Rightarrow> n | None \<Rightarrow> digits_of_nat (category_id t)),
               r_subcategory = (case subcategory_id t of
                                  None \<Rightarrow> ''-''
                                | Some sid \<Rightarrow> if sid = 0 then ''-''
                                    else (case category_map sid of Some n \<Rightarrow> n | None \<Rightarrow> ''-'')),
               r_amount = float64 (dec_val (amount t)),
               r_currency = currency t,
               r_comment = sanitize (comment t)\<rparr>) transactions"

text \<open>
  The optional filters of \<^verbatim>\<open>fetch_transactions\<close>. A filter that is \<^verbatim>\<open>None\<close>, an empty
  list or an empty string is not applied. The operator \<^verbatim>\<open>ILIKE\<close> of the database is a
  parameter: \<open>ilike c q\<close> says whether the comment \<open>c\<close> matches \<^verbatim>\<open>%q%\<close>.
\<close>

record report_query =
  start_date :: "int option"
  end_date :: "int option"
  category_ids :: "nat list option"
  subcategory_ids :: "nat list option"
  amount_min :: "decimal option"
  amount_max :: "decimal option"
  comment_query :: "string option"

definition fetch_transactions ::
  "(string \<Rightarrow> string \<Rightarrow> bool) \<Rightarrow> db \<Rightarrow> int \<Rightarrow> TransactionKind \<Rightarrow> report_query \<Rightarrow> nat option \<Rightarrow>
   transaction list" where
  "fetch_transactions ilike d uid k q limit =
     (let found = sort_key effective_at (filter (\<lambda>t.
            user_id t = uid \<and> kind t = k \<and>
            (case start_date q of None \<Rightarrow> True | Some s \<Rightarrow> s \<le> effective_at t) \<and>
            (case end_date q of None \<Rightarrow> True | Some e \<Rightarrow> effective_at t \<le> e) \<and>
            (case category_ids q of None \<Rightarrow> True
             | Some cs \<Rightarrow> cs = [] \<or> category_id t \<in> set cs) \<and>
            (case subcategory_ids q of None \<Rightarrow> True
             | Some ss \<Rightarrow> ss = [] \<or>
                 (case subcategory_id t of None \<Rightarrow> False | Some sid \<Rightarrow> sid \<in> set ss)) \<and>
            (case amount_min q of None \<Rightarrow> True | Some a \<Rightarrow> dec_val a \<le> dec_val (amount t)) \<and>
            (case amount_max q of None \<Rightarrow> True | Some a \<Rightarrow> dec_val (amount t) \<le> dec_val a) \<and>
            (case comment_query q of None \<Rightarrow> True
             | Some cq \<Rightarrow> cq = [] \<or>
                 (case comment t of None \<Rightarrow> False | Some c \<Rightarrow> ilike c cq))) (rows d))
      in case limit of
           None \<Rightarrow> found
         | Some n \<Rightarrow> if n = 0 then found else take n found)"

subsection \<open>Aggregation\<close>

text \<open>
  The tables a report shows: the raw rows; category, count and sum; category, subcategory
  and sum; the two indicator rows of the mode \<^verbatim>\<open>overall\<close>; and subcategory and sum, the
  table of one category section.
\<close>

datatype indicator = Sum_indicator | Count_indicator

datatype table =
  Detail "df_row list"
  | By_category "(string \<times> nat \<times> rat) list"
  | By_subcategory "(string \<times> string \<times> rat) list"
  | Indicators "(indicator \<times> rat) list"
  | Section "(string \<times> rat) list"

definition table_rows :: "table \<Rightarrow> nat" where
  "table_rows t =
     (case t of Detail rs \<Rightarrow> length rs | By_category rs \<Rightarrow> length rs
      | By_subcategory rs \<Rightarrow> length rs | Indicators rs \<Rightarrow> length rs | Section rs \<Rightarrow> length rs)"



text \<open>The titles of the aggregated sheet, Russian phrases in the source.\<close>

datatype agg_title = By_categories_title | By_subcategories_title | Overall_title

text \<open>The names under which \<^verbatim>\<open>_write_excel\<close> writes a frame.\<close>

datatype sheet_name =
  Data_sheet | Summary_sheet | Meta_sheet | Aggregate_sheet agg_title | Category_sheet string

text \<open>
  What the libraries do and the source does not fix. \<open>series_sum\<close> is \<^verbatim>\<open>Series.sum\<close> on
  a column of floats and \<open>group_sum\<close> the sum of one group of \<^verbatim>\<open>groupby\<close>: both add
  binary64 numbers, in an order and with a compensation that belong to the library;
  \<open>float_sum\<close> is the plain instance. \<open>accepts_sheets\<close> says whether the workbook library
  takes the sheet names of a workbook whose sections are named by categories (it refuses
  some characters and some repeated names).
\<close>

record library =
  series_sum :: "rat list \<Rightarrow> rat"
  group_sum :: "rat list \<Rightarrow> rat"
  accepts_sheets :: "sheet_name list \<Rightarrow> bool"

text \<open>
  \<^verbatim>\<open>_aggregate_df\<close>. \<^verbatim>\<open>groupby\<close> orders the groups by key and \<^verbatim>\<open>sort_values\<close> then
  orders them by sum, largest first; the order among equal sums is not fixed by the
  source, the model keeps the key order there.
\<close>

definition aggregate_df ::
  "library \<Rightarrow> df_row list \<Rightarrow> string option \<Rightarrow> table \<times> agg_title option" where
  "aggregate_df lib df mode =
     (if df = [] \<or> mode = None \<or> mode = Some [] \<or> mode = Some ''detail'' then (Detail df, None)
      else if mode = Some ''by_category'' then
        (By_category (sort_key (\<lambda>(c, n, s). - s)
           (map (\<lambda>c. (c, length (filter (\<lambda>r. r_category r = c) df),
                       group_sum lib (map r_amount (filter (\<lambda>r. r_category r = c) df))))
              (sort (remdups (map r_category df))))),
         Some By_categories_title)
      else if mode = Some ''by_subcategory'' then
        (By_subcategory (sort_key (\<lambda>(c, sc, s). - s)
           (concat (map (\<lambda>c.
              map (\<lambda>sc. (c, sc, group_sum lib (map r_amount
                     (filter (\<lambda>r. r_category r = c \<and> r_subcategory r = sc) df))))
                (sort (remdups (map r_subcategory (filter (\<lambda>r. r_category r = c) df)))))
              (sort (remdups (map r_category df)))))),
         Some By_subcategories_title)
      else if mode = Some ''overall'' then
        (Indicators [(Sum_indicator, series_sum lib (map r_amount df)),
                     (Count_indicator, of_nat (length df))],
         Some Overall_title)
      else (Detail df, None))"

text \<open>\<^verbatim>\<open>_build_category_sections\<close>: one table per category, categories and
  subcategories by sum, largest first.\<close>

definition build_category_sections :: "library \<Rightarrow> df_row list \<Rightarrow> (string \<times> table) list" where
  "build_category_sections lib df =
     (if df = [] then []
      else map (\<lambda>(c, s). (c, Section (sort_key (\<lambda>(sc, s). - s)
                  (map (\<lambda>sc. (sc, group_sum lib (map r_amount
                          (filter (\<lambda>r. r_category r = c \<and> r_subcategory r = sc) df))))
                     (sort (remdups (map r_subcategory (filter (\<lambda>r. r_category r = c) df))))))))
             (sort_key (\<lambda>(c, s). - s)
                (map (\<lambda>c. (c, group_sum lib (map r_amount (filter (\<lambda>r. r_category r = c) df))))
                   (sort (remdups (map r_category df))))))"

subsection \<open>The workbook, the picture and the report\<close>

text \<open>
  The result of \<open>build_report\<close>: the summary, the frames written to the workbook and the
  picture. The names of the files are not modelled.
\<close>

record summary =
  s_kind :: TransactionKind
  s_total :: rat
  s_count :: nat

datatype sheet = Frame table | Summary_frame summary | Meta_frame int TransactionKind

datatype picture =
  Single_table table summary "agg_title option"
  | No_data TransactionKind
  | Stacked "(string \<times> table) list" summary

record report =
  rep_summary :: summary
  rep_sheets :: "(sheet_name \<times> sheet) list"
  rep_picture :: picture

text \<open>
  \<^verbatim>\<open>_write_excel\<close>: the calls of \<^verbatim>\<open>to_excel\<close> in the order of the source, each with the
  name it passes and the frame it writes. The name of a section longer than 31 characters
  is cut to 28 and three periods. Two calls with one name write to one sheet, the later
  over the earlier: the list records the calls, not the sheets that result.
\<close>

definition write_excel ::
  "int \<Rightarrow> df_row list \<Rightarrow> TransactionKind \<Rightarrow> summary \<Rightarrow> (table \<times> agg_title) option \<Rightarrow>
   (string \<times> table) list \<Rightarrow> (sheet_name \<times> sheet) list" where
  "write_excel now df k sm aggregate extra_sheets =
     [(Data_sheet, Frame (Detail df)), (Summary_sheet, Summary_frame sm),
      (Meta_sheet, Meta_frame now k)] @
     (case aggregate of None \<Rightarrow> [] | Some (a, title) \<Rightarrow> [(Aggregate_sheet title, Frame a)]) @
     map (\<lambda>(name, sdf).
            (Category_sheet (if length name > 31 then take 28 name @ ''...'' else name), Frame sdf))
       extra_sheets"

text \<open>
  \<^verbatim>\<open>_render_table_on_axis\<close> hands the cells of the table to \<^verbatim>\<open>ax.table\<close>, which counts
  the columns in the first row of cells: a table without rows raises \<^verbatim>\<open>IndexError\<close>.
\<close>

definition render_table_on_axis :: "table \<Rightarrow> exn option" where
  "render_table_on_axis t = (if table_rows t = 0 then Some IndexError else None)"

text \<open>\<^verbatim>\<open>_write_png\<close>: one table under a title with the total and the count.\<close>

definition write_png :: "table \<Rightarrow> summary \<Rightarrow> agg_title option \<Rightarrow> exn + picture" where
  "write_png t sm title_suffix =
     (case render_table_on_axis t of
        Some x \<Rightarrow> Inl x
      | None \<Rightarrow> Inr (Single_table t sm title_suffix))"

text \<open>\<^verbatim>\<open>_write_png_sections\<close>: a picture that says "no data" when there is no table, else
  at most twelve tables, one under the other.\<close>

definition write_png_sections ::
  "(string \<times> table) list \<Rightarrow> TransactionKind \<Rightarrow> summary \<Rightarrow> exn + picture" where
  "write_png_sections png_tables k sm =
     (if length png_tables = 0 then Inr (No_data k)
      else
        (let shown = take (min (length png_tables) 12) png_tables
         in case List.find (\<lambda>(name, t). render_table_on_axis t \<noteq> None) shown of
              Some (name, t) \<Rightarrow> Inl IndexError
            | None \<Rightarrow> Inr (Stacked shown sm)))"

text \<open>
  The data frame of a report, the first steps of \<open>build_report\<close>: a missing end date is
  now, a missing start date is thirty days before the end date; then the query and
  \<^verbatim>\<open>_build_dataframe\<close>.
\<close>

definition report_dataframe ::
  "(string \<Rightarrow> string \<Rightarrow> bool) \<Rightarrow> int \<Rightarrow> db \<Rightarrow> (nat \<rightharpoonup> string) \<Rightarrow> int \<Rightarrow> TransactionKind \<Rightarrow>
   report_query \<Rightarrow> df_row list" where
  "report_dataframe ilike now d category_map uid k q =
     (let e = (case end_date q of None \<Rightarrow> now | Some e \<Rightarrow> e);
          s = (case start_date q of None \<Rightarrow> e - 2592000000000 | Some s \<Rightarrow> s);
          transactions =
            fetch_transactions ilike d uid k (q\<lparr>start_date := Some s, end_date := Some e\<rparr>) None
      in build_dataframe transactions category_map)"

text \<open>
  \<open>build_report\<close>. The summary is computed from the data frame before the branch on the
  mode. The workbook is written before the picture is drawn, so an exception of the
  drawing leaves the workbook behind; files are not modelled, the result is the value
  returned or the exception raised.
\<close>

definition build_report ::
  "library \<Rightarrow> (string \<Rightarrow> string \<Rightarrow> bool) \<Rightarrow> int \<Rightarrow> db \<Rightarrow> (nat \<rightharpoonup> string) \<Rightarrow> int \<Rightarrow>
   TransactionKind \<Rightarrow> report_query \<Rightarrow> string option \<Rightarrow> exn + report" where
  "build_report lib ilike now d category_map uid k q aggregation =
     (let df = report_dataframe ilike now d category_map uid k q;
          total = (if df \<noteq> [] then series_sum lib (map r_amount df) else 0);
          sm = \<lparr>s_kind = k, s_total = total, s_count = length df\<rparr>
      in if aggregation = Some ''by_category_sections'' \<and> k = EXPENSE then
           (let sections = build_category_sections lib df;
                sheets = write_excel now df k sm None sections
            in if \<not> accepts_sheets lib (map fst sheets) then Inl WorkbookError
               else
                 (case write_png_sections sections k sm of
                    Inl x \<Rightarrow> Inl x
                  | Inr p \<Rightarrow> Inr \<lparr>rep_summary = sm, rep_sheets = sheets, rep_picture = p\<rparr>))
         else
           (let (agg_df, agg_title) = aggregate_df lib df aggregation;
                sheets = write_excel now df k sm
                  (case agg_title of None \<Rightarrow> None | Some t \<Rightarrow> Some (agg_df, t)) []
            in case write_png (case agg_title of None \<Rightarrow> Detail df | Some t \<Rightarrow> agg_df)
                      sm agg_title of
                 Inl x \<Rightarrow> Inl x
               | Inr p \<Rightarrow> Inr \<lparr>rep_summary = sm, rep_sheets = sheets, rep_picture = p\<rparr>))"

text \<open>
  An instance of the libraries: sums that add from left to right, and a workbook library
  that takes every name.
\<close>

definition plain_library :: library where
  "plain_library =
     \<lparr>series_sum = float_sum, group_sum = float_sum, accepts_sheets = (\<lambda>names. True)\<rparr>"

section \<open>Properties of parse\_amount\<close>

lemma is_digit_not_space: "is_digit c \<Longrightarrow> \<not> is_space c"
  by (auto simp: is_digit_def is_space_def)

lemma period_not_digit [simp]: "\<not> is_digit (CHR ''.'')"
  by (simp add: is_digit_def)

lemma takeWhile_all: "list_all P xs \<Longrightarrow> takeWhile P (xs @ ys) = xs @ takeWhile P ys"
  by (induction xs) auto

lemma dropWhile_all: "list_all P xs \<Longrightarrow> dropWhile P (xs @ ys) = dropWhile P ys"
  by (induction xs) auto

lemma list_all_takeWhile: "list_all P (takeWhile P xs)"
  by (induction xs) auto

lemma dropWhile_nil_all: "dropWhile P xs = [] \<Longrightarrow> list_all P xs"
  by (induction xs) (auto split: if_splits)

text \<open>The string that reaches the pattern never ends with whitespace.\<close>

lemma strip_last: "strip s \<noteq> [] \<Longrightarrow> \<not> is_space (last (strip s))"
proof -
  assume ne: "strip s \<noteq> []"
  let ?r = "dropWhile is_space (rev (dropWhile is_space s))"
  from ne have "?r \<noteq> []" by (simp add: strip_def)
  then have "\<not> is_space (hd ?r)" by (rule hd_dropWhile)
  moreover have "last (strip s) = hd ?r"
    using \<open>?r \<noteq> []\<close> by (simp add: strip_def last_rev)
  ultimately show ?thesis by simp
qed

lemma replace_last:
  "s \<noteq> [] \<Longrightarrow> last s \<noteq> old \<Longrightarrow> replace old new s \<noteq> [] \<and> last (replace old new s) = last s"
proof (induction s)
  case Nil
  then show ?case by simp
next
  case (Cons a s)
  show ?case
  proof (cases "s = []")
    case True
    with Cons.prems show ?thesis by (simp add: replace_def)
  next
    case False
    with Cons have "replace old new s \<noteq> [] \<and> last (replace old new s) = last s" by simp
    with False show ?thesis by (simp add: replace_def)
  qed
qed

lemma replace_nil_iff: "new \<noteq> [] \<Longrightarrow> replace old new s = [] \<longleftrightarrow> s = []"
  by (cases s) (auto simp: replace_def)

lemma clean_amount_last:
  assumes "clean_amount s \<noteq> []"
  shows "last (clean_amount s) \<noteq> CHR 0x0A"
proof -
  let ?a = "strip s"
  let ?b = "replace (CHR '' '') [] ?a"
  let ?c = "replace (CHR '','') ''.'' ?b"
  have c: "clean_amount s = ?c" by (simp add: clean_amount_def)
  with assms have "?b \<noteq> []" by (auto simp: replace_def)
  then have a_ne: "?a \<noteq> []" by (auto simp: replace_def)
  then have nsp: "\<not> is_space (last ?a)" by (rule strip_last)
  then have "last ?a \<noteq> CHR '' ''" by (auto simp: is_space_def)
  with a_ne have b: "?b \<noteq> [] \<and> last ?b = last ?a" by (rule replace_last)
  show ?thesis
  proof (cases "last ?b = CHR '',''")
    case True
    with b have "?c = replace (CHR '','') ''.'' (butlast ?b) @ ''.''"
      by (subst append_butlast_last_id [symmetric, of ?b]) (simp_all add: replace_def)
    then show ?thesis by (simp add: c)
  next
    case False
    with b have "last ?c = last ?a" using replace_last [of ?b "CHR '',''" "''.''"] by simp
    with nsp show ?thesis by (auto simp: c is_space_def)
  qed
qed

lemma amount_re_match_form: "amount_re_match t \<Longrightarrow> t = [] \<or> last t \<noteq> CHR 0x0A \<Longrightarrow> spec_amount_form t"
proof -
  assume m: "amount_re_match t" and l: "t = [] \<or> last t \<noteq> CHR 0x0A"
  define ds where "ds = takeWhile is_digit t"
  define r1 where "r1 = dropWhile is_digit t"
  define r2 where "r2 = (case r1 of [] \<Rightarrow> [] | c # r \<Rightarrow> if c = CHR ''.'' then r else r1)"
  define p where "p = (case r1 of [] \<Rightarrow> [] | c # r \<Rightarrow> if c = CHR ''.'' then ''.'' else [])"
  define r3 where "r3 = dropWhile is_digit r2"
  define fs where "fs = takeWhile is_digit r2"
  from m have ne: "ds \<noteq> []" and r3: "r3 = [] \<or> r3 = [CHR 0x0A]"
    unfolding amount_re_match_def Let_def ds_def r1_def r2_def r3_def by blast+
  have t: "t = ds @ r1" by (simp add: ds_def r1_def)
  have r1: "r1 = p @ r2" by (auto simp: p_def r2_def split: list.splits)
  have r2: "r2 = fs @ r3" by (simp add: fs_def r3_def)
  have "r3 = []"
  proof (rule ccontr)
    assume "r3 \<noteq> []"
    with r3 have "r3 = [CHR 0x0A]" by simp
    with t r1 r2 have "t \<noteq> [] \<and> last t = CHR 0x0A" by simp
    with l show False by simp
  qed
  with t r1 r2 have "t = ds @ p @ fs" by simp
  moreover have "list_all is_digit ds" "list_all is_digit fs"
    by (simp_all add: ds_def fs_def list_all_takeWhile)
  moreover have "p = [] \<or> p = ''.''" by (auto simp: p_def split: list.splits)
  ultimately show ?thesis using ne unfolding spec_amount_form_def by blast
qed

lemma form_amount_re_match: "spec_amount_form t \<Longrightarrow> amount_re_match t"
proof -
  assume "spec_amount_form t"
  then obtain ds p fs where t: "t = ds @ p @ fs" and ne: "ds \<noteq> []"
    and ds: "list_all is_digit ds" and p: "p = [] \<or> p = ''.''" and fs: "list_all is_digit fs"
    unfolding spec_amount_form_def by blast
  from fs have tw: "takeWhile is_digit fs = fs" and dw: "dropWhile is_digit fs = []"
    by (simp_all add: list_all_iff)
  from p show ?thesis
  proof
    assume "p = []"
    with t have t': "t = ds @ fs" by simp
    have tw': "takeWhile is_digit t = ds @ fs" and dw': "dropWhile is_digit t = []"
      using ds tw dw by (simp_all add: t' takeWhile_all dropWhile_all)
    show ?thesis unfolding amount_re_match_def Let_def tw' dw' using ne by simp
  next
    assume "p = ''.''"
    with t have t': "t = ds @ CHR ''.'' # fs" by simp
    have tw': "takeWhile is_digit t = ds" and dw': "dropWhile is_digit t = CHR ''.'' # fs"
      using ds by (simp_all add: t' takeWhile_all dropWhile_all)
    show ?thesis unfolding amount_re_match_def Let_def tw' dw' using ne dw by simp
  qed
qed

lemma dropWhile_none: "\<forall>c \<in> set xs. \<not> P c \<Longrightarrow> dropWhile P xs = xs"
  by (cases xs) auto

lemma strip_id: "\<forall>c \<in> set xs. \<not> is_space c \<Longrightarrow> strip xs = xs"
  by (simp add: strip_def dropWhile_none)

lemma py_Decimal_form:
  assumes ds: "list_all is_digit ds" and ne: "ds \<noteq> []" and fs: "list_all is_digit fs"
    and p: "p = [] \<or> p = ''.''"
  shows "py_Decimal (ds @ p @ fs) =
           \<lparr>coeff = int (nat_of_digits (ds @ fs)), scale = (if p = [] then 0 else length fs)\<rparr>"
proof -
  have "\<not> is_space (CHR ''.'')" by (simp add: is_space_def)
  then have sp: "\<forall>c \<in> set (ds @ p @ fs). \<not> is_space c"
    using ds fs p is_digit_not_space by (auto simp: list_all_iff)
  from p show ?thesis
  proof
    assume p0: "p = []"
    from sp have st: "strip (ds @ fs) = ds @ fs" unfolding p0 by (intro strip_id) simp
    have "list_all is_digit (ds @ fs)" using ds fs by simp
    then have tw: "takeWhile is_digit (ds @ fs) = ds @ fs"
      and dw: "dropWhile is_digit (ds @ fs) = []"
      by (simp_all add: list_all_iff)
    have "py_Decimal (ds @ fs) = \<lparr>coeff = int (nat_of_digits (ds @ fs)), scale = 0\<rparr>"
      unfolding py_Decimal_def Let_def st tw dw by simp
    then show ?thesis by (simp add: p0)
  next
    assume p1: "p = ''.''"
    from sp have st: "strip (ds @ CHR ''.'' # fs) = ds @ CHR ''.'' # fs"
      unfolding p1 by (intro strip_id) simp
    have tw: "takeWhile is_digit (ds @ CHR ''.'' # fs) = ds"
      and dw: "dropWhile is_digit (ds @ CHR ''.'' # fs) = CHR ''.'' # fs"
      using ds by (simp_all add: takeWhile_all dropWhile_all)
    have "py_Decimal (ds @ CHR ''.'' # fs) =
        \<lparr>coeff = int (nat_of_digits (ds @ fs)), scale = length fs\<rparr>"
      unfolding py_Decimal_def Let_def st tw dw by simp
    then show ?thesis by (simp add: p1)
  qed
qed

text \<open>
  Claim C2. For every input string, \<open>parse_amount\<close> strips surrounding whitespace, removes
  the spaces, turns every comma into a period, and succeeds exactly when the result has
  the form "digits, optionally one period, optionally trailing digits"; the value is then
  the number these digits denote. In particular "1000" parses to 1000.00, "1 500" to
  1500.00, "2,50" to 2.50, and "abc" is a parse failure.
\<close>

theorem parse_amount_grammar:
  "(parse_amount s \<noteq> None \<longleftrightarrow>
      spec_amount_form (replace (CHR '','') ''.'' (replace (CHR '' '') [] (strip s)))) \<and>
   (\<forall>ds p fs. replace (CHR '','') ''.'' (replace (CHR '' '') [] (strip s)) = ds @ p @ fs \<and>
        ds \<noteq> [] \<and> list_all is_digit ds \<and> (p = [] \<or> p = ''.'') \<and> list_all is_digit fs \<longrightarrow>
      parse_amount s = Some \<lparr>coeff = int (nat_of_digits (ds @ fs)),
                              scale = (if p = [] then 0 else length fs)\<rparr>) \<and>
   map_option dec_val (parse_amount ''1000'') = Some 1000 \<and>
   map_option dec_val (parse_amount ''1 500'') = Some 1500 \<and>
   map_option dec_val (parse_amount ''2,50'') = Some (5 / 2) \<and>
   parse_amount ''abc'' = None"
proof (intro conjI allI impI)
  let ?c = "replace (CHR '','') ''.'' (replace (CHR '' '') [] (strip s))"
  have c: "clean_amount s = ?c" by (simp add: clean_amount_def)
  have l: "?c = [] \<or> last ?c \<noteq> CHR 0x0A" using clean_amount_last [of s] c by auto
  have "parse_amount s \<noteq> None \<longleftrightarrow> amount_re_match ?c"
    by (simp add: parse_amount_def c Let_def)
  also have "\<dots> \<longleftrightarrow> spec_amount_form ?c"
    using l amount_re_match_form [of ?c] form_amount_re_match [of ?c] by blast
  finally show "parse_amount s \<noteq> None \<longleftrightarrow> spec_amount_form ?c" .
next
  fix ds p fs
  let ?c = "replace (CHR '','') ''.'' (replace (CHR '' '') [] (strip s))"
  assume h: "?c = ds @ p @ fs \<and> ds \<noteq> [] \<and> list_all is_digit ds \<and> (p = [] \<or> p = ''.'') \<and>
    list_all is_digit fs"
  then have "spec_amount_form ?c" unfolding spec_amount_form_def by blast
  then have "amount_re_match ?c" by (rule form_amount_re_match)
  moreover have "py_Decimal (ds @ p @ fs) =
      \<lparr>coeff = int (nat_of_digits (ds @ fs)), scale = (if p = [] then 0 else length fs)\<rparr>"
    using h by (intro py_Decimal_form) simp_all
  ultimately show "parse_amount s = Some \<lparr>coeff = int (nat_of_digits (ds @ fs)),
      scale = (if p = [] then 0 else length fs)\<rparr>"
    using h by (simp add: parse_amount_def clean_amount_def)
next
  show "map_option dec_val (parse_amount ''1000'') = Some 1000" by code_simp
  show "map_option dec_val (parse_amount ''1 500'') = Some 1500" by code_simp
  show "map_option dec_val (parse_amount ''2,50'') = Some (5 / 2)" by code_simp
  show "parse_amount ''abc'' = None" by code_simp
qed

theorem parse_amount_grammar_witness:
  "parse_amount '' 1 5,25 '' = Some \<lparr>coeff = 1525, scale = 2\<rparr> \<and>
   spec_amount_form ''15.25'' \<and>
   parse_amount ''1,2,3'' = None \<and> \<not> spec_amount_form ''1.2.3''"
proof -
  have c1: "replace (CHR '','') ''.'' (replace (CHR '' '') [] (strip '' 1 5,25 '')) =
      ''15'' @ ''.'' @ ''25''"
    by code_simp
  have c2: "replace (CHR '','') ''.'' (replace (CHR '' '') [] (strip ''1,2,3'')) = ''1.2.3''"
    by code_simp
  have d1: "list_all is_digit ''15''" "list_all is_digit ''25''"
    by code_simp+
  have n1: "nat_of_digits ''1525'' = 1525"
    by code_simp
  have "parse_amount '' 1 5,25 '' = Some \<lparr>coeff = int (nat_of_digits (''15'' @ ''25'')),
      scale = (if ''.'' = [] then 0 else length ''25'')\<rparr>"
    by (rule parse_amount_grammar [of "'' 1 5,25 ''", THEN conjunct2, THEN conjunct1,
        rule_format, of "''15''" "''.''" "''25''"]) (simp only: c1 d1, simp)
  then have p1: "parse_amount '' 1 5,25 '' = Some \<lparr>coeff = 1525, scale = 2\<rparr>"
    by (simp add: n1)
  have p2: "parse_amount ''1,2,3'' = None" by code_simp
  from p1 have s1: "spec_amount_form ''15.25''"
    using parse_amount_grammar [of "'' 1 5,25 ''", THEN conjunct1] c1 by simp
  from p2 have s2: "\<not> spec_amount_form ''1.2.3''"
    using parse_amount_grammar [of "''1,2,3''", THEN conjunct1] c2 by simp
  from p1 s1 p2 s2 show ?thesis by blast
qed

section \<open>Properties of the amount step\<close>

lemma parse_amount_nonneg: "parse_amount s = Some a \<Longrightarrow> 0 \<le> dec_val a"
  by (auto simp: parse_amount_def py_Decimal_def dec_val_def Let_def split: if_splits)

lemma in_set_dropWhile: "x \<in> set xs \<Longrightarrow> \<not> P x \<Longrightarrow> x \<in> set (dropWhile P xs)"
  by (induction xs) auto

lemma in_set_strip: "c \<in> set s \<Longrightarrow> \<not> is_space c \<Longrightarrow> c \<in> set (strip s)"
  by (simp add: strip_def in_set_dropWhile)

lemma in_set_replace: "c \<in> set s \<Longrightarrow> c \<noteq> old \<Longrightarrow> c \<in> set (replace old new s)"
  by (induction s) (auto simp: replace_def)

lemma form_chars: "spec_amount_form t \<Longrightarrow> c \<in> set t \<Longrightarrow> is_digit c \<or> c = CHR ''.''"
  by (auto simp: spec_amount_form_def list_all_iff)

lemma minus_sign_rejected: "CHR ''-'' \<in> set s \<Longrightarrow> parse_amount s = None"
proof (rule ccontr)
  assume m: "CHR ''-'' \<in> set s" and "parse_amount s \<noteq> None"
  then have "amount_re_match (clean_amount s)"
    by (simp add: parse_amount_def Let_def split: if_splits)
  moreover have "clean_amount s = [] \<or> last (clean_amount s) \<noteq> CHR 0x0A"
    using clean_amount_last [of s] by blast
  ultimately have f: "spec_amount_form (clean_amount s)"
    by (rule amount_re_match_form)
  have "\<not> is_space (CHR ''-'')" by (simp add: is_space_def)
  with m have "CHR ''-'' \<in> set (strip s)" by (rule in_set_strip)
  then have "CHR ''-'' \<in> set (clean_amount s)"
    by (simp add: clean_amount_def in_set_replace)
  with f have "is_digit (CHR ''-'') \<or> CHR ''-'' = CHR ''.''" by (rule form_chars)
  then show False by (simp add: is_digit_def)
qed

lemma send_step_message_keeps:
  "fsm_state (send_step_message t w) = fsm_state w"
  "the_db (send_step_message t w) = the_db w"
  "fsm_data (send_step_message t w) =
     (fsm_data w)\<lparr>last_bot_message_id := Some (next_message_id (the_chat w))\<rparr>"
  "last (bot_live (the_chat (send_step_message t w))) = (next_message_id (the_chat w), t)"
  by (simp_all add: send_step_message_def Let_def delete_message_def split: option.splits)

lemma process_amount_parse_failure:
  "message_text m = Some t \<Longrightarrow> parse_amount t = None \<Longrightarrow>
   process_amount m w =
     (Returned, send_step_message Bad_format_prompt
        (w\<lparr>the_chat := delete_user_message (message_id m) (the_chat w)\<rparr>))"
  by (simp add: process_amount_def)

lemma process_amount_not_positive:
  "message_text m = Some t \<Longrightarrow> parse_amount t = Some a \<Longrightarrow> dec_val a \<le> 0 \<Longrightarrow>
   process_amount m w =
     (Returned, send_step_message Not_positive_prompt
        (w\<lparr>the_chat := delete_user_message (message_id m) (the_chat w)\<rparr>))"
  by (simp add: process_amount_def)

lemma parse_zero: "parse_amount ''0'' = Some \<lparr>coeff = 0, scale = 0\<rparr>"
  by code_simp

lemma parse_minus_five: "parse_amount ''-5'' = None"
  by code_simp

text \<open>
  Claim C5. In the state \<open>waiting_for_amount\<close>, a text that does not parse, or that parses
  to a value that is not positive (such as "0"), makes \<open>process_amount\<close> return with the
  state still \<open>waiting_for_amount\<close>, the table of transactions and every draft field
  unchanged, and an error prompt as the newest bot message. Only the stored id of the last
  bot message changes.
\<close>

theorem process_amount_rejects:
  assumes "fsm_state w = Some waiting_for_amount"
    and "message_text m = Some t"
    and "parse_amount t = None \<or> (\<exists>a. parse_amount t = Some a \<and> dec_val a \<le> 0)"
  shows "fst (process_amount m w) = Returned \<and>
         fsm_state (snd (process_amount m w)) = Some waiting_for_amount \<and>
         the_db (snd (process_amount m w)) = the_db w \<and>
         fsm_data (snd (process_amount m w)) =
           (fsm_data w)\<lparr>last_bot_message_id := Some (next_message_id (the_chat w))\<rparr> \<and>
         last (bot_live (the_chat (snd (process_amount m w)))) =
           (next_message_id (the_chat w),
            if parse_amount t = None then Bad_format_prompt else Not_positive_prompt)"
proof -
  let ?w1 = "w\<lparr>the_chat := delete_user_message (message_id m) (the_chat w)\<rparr>"
  let ?e = "if parse_amount t = None then Bad_format_prompt else Not_positive_prompt"
  have "process_amount m w = (Returned, send_step_message ?e ?w1)"
    using assms(2,3) process_amount_parse_failure [of m t w]
      process_amount_not_positive [of m t _ w] by auto
  moreover have "next_message_id (the_chat ?w1) = next_message_id (the_chat w)"
    by (simp add: delete_user_message_def)
  ultimately show ?thesis
    using assms(1) by (simp add: send_step_message_keeps)
qed

theorem process_amount_rejects_witness:
  "fsm_state (snd (process_amount \<lparr>message_id = 7, message_text = Some ''0''\<rparr>
      \<lparr>fsm_state = Some waiting_for_amount,
       fsm_data = \<lparr>d_kind = Some ''expense'', d_category_id = Some 3,
         d_category_name = Some ''Food'', d_subcategory_id = None, d_subcategory_name = None,
         d_comment = None, d_amount = None, last_bot_message_id = Some 6\<rparr>,
       the_chat = \<lparr>bot_live = [(6, Bad_format_prompt)], user_live = [7], next_message_id = 8\<rparr>,
       the_db = \<lparr>rows = [], next_tx_id = 1\<rparr>\<rparr>)) = Some waiting_for_amount \<and>
   the_db (snd (process_amount \<lparr>message_id = 7, message_text = Some ''0''\<rparr>
      \<lparr>fsm_state = Some waiting_for_amount,
       fsm_data = \<lparr>d_kind = Some ''expense'', d_category_id = Some 3,
         d_category_name = Some ''Food'', d_subcategory_id = None, d_subcategory_name = None,
         d_comment = None, d_amount = None, last_bot_message_id = Some 6\<rparr>,
       the_chat = \<lparr>bot_live = [(6, Bad_format_prompt)], user_live = [7], next_message_id = 8\<rparr>,
       the_db = \<lparr>rows = [], next_tx_id = 1\<rparr>\<rparr>)) = \<lparr>rows = [], next_tx_id = 1\<rparr> \<and>
   last (bot_live (the_chat (snd (process_amount \<lparr>message_id = 7, message_text = Some ''0''\<rparr>
      \<lparr>fsm_state = Some waiting_for_amount,
       fsm_data = \<lparr>d_kind = Some ''expense'', d_category_id = Some 3,
         d_category_name = Some ''Food'', d_subcategory_id = None, d_subcategory_name = None,
         d_comment = None, d_amount = None, last_bot_message_id = Some 6\<rparr>,
       the_chat = \<lparr>bot_live = [(6, Bad_format_prompt)], user_live = [7], next_message_id = 8\<rparr>,
       the_db = \<lparr>rows = [], next_tx_id = 1\<rparr>\<rparr>)))) = (8, Not_positive_prompt)"
proof -
  have z: "dec_val \<lparr>coeff = 0, scale = 0\<rparr> \<le> 0" by (simp add: dec_val_def)
  show ?thesis
    using process_amount_rejects [of
      "\<lparr>fsm_state = Some waiting_for_amount,
       fsm_data = \<lparr>d_kind = Some ''expense'', d_category_id = Some 3,
         d_category_name = Some ''Food'', d_subcategory_id = None, d_subcategory_name = None,
         d_comment = None, d_amount = None, last_bot_message_id = Some 6\<rparr>,
       the_chat = \<lparr>bot_live = [(6, Bad_format_prompt)], user_live = [7], next_message_id = 8\<rparr>,
       the_db = \<lparr>rows = [], next_tx_id = 1\<rparr>\<rparr>"
      "\<lparr>message_id = 7, message_text = Some ''0''\<rparr>" "''0''"] parse_zero z
    by simp
qed

text \<open>
  Claim C3, as stated, fails: "-5" does not parse, because the accepted pattern has no
  sign, so it never reaches the check for a positive value.
\<close>

theorem negative_amount_counterexample:
  "parse_amount ''-5'' = None \<and> parse_amount ''-5'' \<noteq> Some \<lparr>coeff = - 5, scale = 0\<rparr>"
  by (simp add: parse_minus_five)

text \<open>
  Claim C3, amended. A string with a minus sign, such as "-5", is a parse failure and is
  answered with the format prompt; a parsed value is never negative. A value of zero (such
  as "0") parses and is then rejected by the check for a positive value, with a prompt of
  its own. Both answers are sent by the same step and leave the state as it is.
\<close>

theorem negative_amount_is_parse_failure:
  "(CHR ''-'' \<in> set s \<longrightarrow> parse_amount s = None) \<and>
   (parse_amount s = Some a \<longrightarrow> 0 \<le> dec_val a) \<and>
   (message_text m = Some s \<and> CHR ''-'' \<in> set s \<longrightarrow>
      process_amount m w =
        (Returned, send_step_message Bad_format_prompt
           (w\<lparr>the_chat := delete_user_message (message_id m) (the_chat w)\<rparr>))) \<and>
   (message_text m = Some s \<and> parse_amount s = Some a \<and> dec_val a = 0 \<longrightarrow>
      process_amount m w =
        (Returned, send_step_message Not_positive_prompt
           (w\<lparr>the_chat := delete_user_message (message_id m) (the_chat w)\<rparr>))) \<and>
   fsm_state (send_step_message Bad_format_prompt w) = fsm_state w \<and>
   fsm_state (send_step_message Not_positive_prompt w) = fsm_state w \<and>
   parse_amount ''0'' = Some \<lparr>coeff = 0, scale = 0\<rparr> \<and>
   Bad_format_prompt \<noteq> Not_positive_prompt"
proof (intro conjI impI)
  show "parse_amount s = None" if "CHR ''-'' \<in> set s"
    using that by (rule minus_sign_rejected)
  show "0 \<le> dec_val a" if "parse_amount s = Some a"
    using that by (rule parse_amount_nonneg)
  show "process_amount m w =
      (Returned, send_step_message Bad_format_prompt
         (w\<lparr>the_chat := delete_user_message (message_id m) (the_chat w)\<rparr>))"
    if "message_text m = Some s \<and> CHR ''-'' \<in> set s"
    using that minus_sign_rejected [of s] process_amount_parse_failure [of m s w] by blast
  show "process_amount m w =
      (Returned, send_step_message Not_positive_prompt
         (w\<lparr>the_chat := delete_user_message (message_id m) (the_chat w)\<rparr>))"
    if "message_text m = Some s \<and> parse_amount s = Some a \<and> dec_val a = 0"
    using that process_amount_not_positive [of m s a w] by simp
qed (simp_all add: send_step_message_keeps parse_zero)

theorem negative_amount_is_parse_failure_witness:
  "parse_amount ''-5'' = None \<and>
   fst (process_amount \<lparr>message_id = 7, message_text = Some ''-5''\<rparr>
      \<lparr>fsm_state = Some waiting_for_amount,
       fsm_data = \<lparr>d_kind = Some ''income'', d_category_id = Some 103,
         d_category_name = Some ''Honey'', d_subcategory_id = None, d_subcategory_name = None,
         d_comment = None, d_amount = None, last_bot_message_id = None\<rparr>,
       the_chat = \<lparr>bot_live = [], user_live = [7], next_message_id = 8\<rparr>,
       the_db = \<lparr>rows = [], next_tx_id = 1\<rparr>\<rparr>) = Returned \<and>
   bot_live (the_chat (snd (process_amount \<lparr>message_id = 7, message_text = Some ''-5''\<rparr>
      \<lparr>fsm_state = Some waiting_for_amount,
       fsm_data = \<lparr>d_kind = Some ''income'', d_category_id = Some 103,
         d_category_name = Some ''Honey'', d_subcategory_id = None, d_subcategory_name = None,
         d_comment = None, d_amount = None, last_bot_message_id = None\<rparr>,
       the_chat = \<lparr>bot_live = [], user_live = [7], next_message_id = 8\<rparr>,
       the_db = \<lparr>rows = [], next_tx_id = 1\<rparr>\<rparr>))) = [(8, Bad_format_prompt)]"
proof -
  have m: "CHR ''-'' \<in> set ''-5''" by simp
  note t = negative_amount_is_parse_failure [of "''-5''" _
      "\<lparr>message_id = 7, message_text = Some ''-5''\<rparr>"
      "\<lparr>fsm_state = Some waiting_for_amount,
       fsm_data = \<lparr>d_kind = Some ''income'', d_category_id = Some 103,
         d_category_name = Some ''Honey'', d_subcategory_id = None, d_subcategory_name = None,
         d_comment = None, d_amount = None, last_bot_message_id = None\<rparr>,
       the_chat = \<lparr>bot_live = [], user_live = [7], next_message_id = 8\<rparr>,
       the_db = \<lparr>rows = [], next_tx_id = 1\<rparr>\<rparr>"]
  from t m have p: "parse_amount ''-5'' = None" by blast
  from t m have "process_amount \<lparr>message_id = 7, message_text = Some ''-5''\<rparr>
      \<lparr>fsm_state = Some waiting_for_amount,
       fsm_data = \<lparr>d_kind = Some ''income'', d_category_id = Some 103,
         d_category_name = Some ''Honey'', d_subcategory_id = None, d_subcategory_name = None,
         d_comment = None, d_amount = None, last_bot_message_id = None\<rparr>,
       the_chat = \<lparr>bot_live = [], user_live = [7], next_message_id = 8\<rparr>,
       the_db = \<lparr>rows = [], next_tx_id = 1\<rparr>\<rparr> =
     (Returned, send_step_message Bad_format_prompt
        (\<lparr>fsm_state = Some waiting_for_amount,
       fsm_data = \<lparr>d_kind = Some ''income'', d_category_id = Some 103,
         d_category_name = Some ''Honey'', d_subcategory_id = None, d_subcategory_name = None,
         d_comment = None, d_amount = None, last_bot_message_id = None\<rparr>,
       the_chat = \<lparr>bot_live = [], user_live = [7], next_message_id = 8\<rparr>,
       the_db = \<lparr>rows = [], next_tx_id = 1\<rparr>\<rparr>\<lparr>the_chat := delete_user_message 7
          \<lparr>bot_live = [], user_live = [7], next_message_id = 8\<rparr>\<rparr>))"
    by simp
  then show ?thesis
    using p by (simp add: send_step_message_def delete_user_message_def)
qed

section \<open>Properties of the browser of recent transactions\<close>





section \<open>Properties of the repository\<close>

lemma filter_key_unique:
  "distinct (map f xs) \<Longrightarrow> x \<in> set xs \<Longrightarrow> filter (\<lambda>y. f y = f x) xs = [x]"
proof (induction xs)
  case Nil
  then show ?case by simp
next
  case (Cons a xs)
  show ?case
  proof (cases "a = x")
    case True
    from Cons.prems have "\<forall>y \<in> set xs. f y \<noteq> f a" by (auto simp: image_iff)
    then have "filter (\<lambda>y. f y = f a) xs = []" by (simp add: filter_empty_conv)
    with True show ?thesis by simp
  next
    case False
    with Cons.prems have x: "x \<in> set xs" and "f a \<noteq> f x" by (auto simp: image_iff)
    with Cons show ?thesis by simp
  qed
qed

lemma fetch_recent_subset: "set (fetch_recent d uid knd offset limit) \<subseteq> set (rows d)"
proof -
  define q2 where "q2 = (if knd = Some ''expense''
      then filter (\<lambda>t. kind t = EXPENSE) (filter (\<lambda>t. user_id t = uid) (rows d))
      else if knd = Some ''income''
      then filter (\<lambda>t. kind t = INCOME) (filter (\<lambda>t. user_id t = uid) (rows d))
      else filter (\<lambda>t. user_id t = uid) (rows d))"
  let ?srt = "sort_key (\<lambda>t. - effective_at t) q2"
  have f: "fetch_recent d uid knd offset limit = take limit (drop offset ?srt)"
    by (simp add: fetch_recent_def q2_def Let_def)
  have "set (take limit (drop offset ?srt)) \<subseteq> set ?srt"
    using set_take_subset [of limit "drop offset ?srt"] set_drop_subset [of offset ?srt]
    by (rule order_trans)
  moreover have "set ?srt \<subseteq> set (rows d)" unfolding q2_def by auto
  ultimately show ?thesis unfolding f by (rule order_trans)
qed

lemma fetch_recent_all:
  "set (fetch_recent d uid None 0 (length (rows d))) = {t \<in> set (rows d). user_id t = uid}"
proof -
  have "length (filter (\<lambda>t. user_id t = uid) (rows d)) \<le> length (rows d)" by simp
  then show ?thesis by (simp add: fetch_recent_def)
qed

lemma create_transaction_db_ok:
  assumes ok: "db_ok d"
    and cr: "create_transaction c now uid k cid sid amt cmt cur eff d = Inr (t, d')"
  shows "db_ok d' \<and> t \<in> set (rows d') \<and> user_id t = uid \<and> tx_id t = next_tx_id d"
proof -
  from cr have t: "tx_id t = next_tx_id d" "user_id t = uid"
    and d': "rows d' = rows d @ [t]" "next_tx_id d' = Suc (next_tx_id d)"
    by (auto simp: create_transaction_def Let_def split: if_splits)
  from ok have lt: "\<forall>r \<in> set (rows d). tx_id r < next_tx_id d"
    and di: "distinct (map tx_id (rows d))"
    by (simp_all add: db_ok_def)
  from lt t have "tx_id t \<notin> tx_id ` set (rows d)" by auto
  with di have "distinct (map tx_id (rows d'))" by (simp add: d')
  moreover from lt t have "\<forall>r \<in> set (rows d'). tx_id r < next_tx_id d'"
    by (auto simp: d' less_SucI)
  ultimately show ?thesis using t d' by (simp add: db_ok_def)
qed

text \<open>
  Claim C6. For every transaction in the table, deletion by its owner succeeds (when the
  commit does) and no later listing contains it; deletion by another user returns
  \<open>False\<close>, exactly as for an id that does not exist, changes nothing, and the
  transaction is still in the listing of its owner.
\<close>

theorem delete_by_id_scoped:
  assumes ok: "db_ok d" and t: "t \<in> set (rows d)" and other: "other \<noteq> user_id t"
  shows "delete_transaction_by_id True (user_id t) (tx_id t) d =
           Inr (True, d\<lparr>rows := filter (\<lambda>r. tx_id r \<noteq> tx_id t) (rows d)\<rparr>) \<and>
         (\<forall>uid knd offset limit.
            t \<notin> set (fetch_recent (d\<lparr>rows := filter (\<lambda>r. tx_id r \<noteq> tx_id t) (rows d)\<rparr>)
                      uid knd offset limit)) \<and>
         delete_transaction_by_id c other (tx_id t) d = Inr (False, d) \<and>
         (\<forall>n. n \<notin> tx_id ` set (rows d) \<longrightarrow>
            delete_transaction_by_id c other n d = Inr (False, d)) \<and>
         t \<in> set (fetch_recent d (user_id t) None 0 (length (rows d)))"
proof -
  from ok t have f: "filter (\<lambda>r. tx_id r = tx_id t) (rows d) = [t]"
    by (simp add: db_ok_def filter_key_unique)
  have a: "delete_transaction_by_id True (user_id t) (tx_id t) d =
      Inr (True, d\<lparr>rows := filter (\<lambda>r. tx_id r \<noteq> tx_id t) (rows d)\<rparr>)"
    by (simp add: delete_transaction_by_id_def f)
  have b: "t \<notin> set (fetch_recent (d\<lparr>rows := filter (\<lambda>r. tx_id r \<noteq> tx_id t) (rows d)\<rparr>)
      uid knd offset limit)" for uid knd offset limit
    using fetch_recent_subset
      [of "d\<lparr>rows := filter (\<lambda>r. tx_id r \<noteq> tx_id t) (rows d)\<rparr>" uid knd offset limit]
    by auto
  have c: "delete_transaction_by_id c other (tx_id t) d = Inr (False, d)"
    using other by (simp add: delete_transaction_by_id_def f)
  have e: "delete_transaction_by_id c other n d = Inr (False, d)"
    if "n \<notin> tx_id ` set (rows d)" for n
  proof -
    from that have "filter (\<lambda>r. tx_id r = n) (rows d) = []"
      by (auto simp: filter_empty_conv)
    then show ?thesis by (simp add: delete_transaction_by_id_def)
  qed
  have g: "t \<in> set (fetch_recent d (user_id t) None 0 (length (rows d)))"
    using t by (simp add: fetch_recent_all)
  from a b c e g show ?thesis by blast
qed

theorem delete_by_id_scoped_witness:
  "create_transaction True 1000 1 EXPENSE 3 None \<lparr>coeff = 100, scale = 2\<rparr> None ''RUB'' None
      \<lparr>rows = [], next_tx_id = 1\<rparr> =
     Inr (\<lparr>tx_id = 1, user_id = 1, kind = EXPENSE, category_id = 3, subcategory_id = None,
            amount = \<lparr>coeff = 100, scale = 2\<rparr>, currency = ''RUB'', comment = None,
            created_at = 1000, effective_at = 1000\<rparr>,
          \<lparr>rows = [\<lparr>tx_id = 1, user_id = 1, kind = EXPENSE, category_id = 3,
            subcategory_id = None, amount = \<lparr>coeff = 100, scale = 2\<rparr>, currency = ''RUB'',
            comment = None, created_at = 1000, effective_at = 1000\<rparr>], next_tx_id = 2\<rparr>) \<and>
   delete_transaction_by_id True 1 1
      \<lparr>rows = [\<lparr>tx_id = 1, user_id = 1, kind = EXPENSE, category_id = 3,
            subcategory_id = None, amount = \<lparr>coeff = 100, scale = 2\<rparr>, currency = ''RUB'',
            comment = None, created_at = 1000, effective_at = 1000\<rparr>], next_tx_id = 2\<rparr> =
     Inr (True, \<lparr>rows = [], next_tx_id = 2\<rparr>) \<and>
   delete_transaction_by_id True 2 1
      \<lparr>rows = [\<lparr>tx_id = 1, user_id = 1, kind = EXPENSE, category_id = 3,
            subcategory_id = None, amount = \<lparr>coeff = 100, scale = 2\<rparr>, currency = ''RUB'',
            comment = None, created_at = 1000, effective_at = 1000\<rparr>], next_tx_id = 2\<rparr> =
     Inr (False, \<lparr>rows = [\<lparr>tx_id = 1, user_id = 1, kind = EXPENSE, category_id = 3,
            subcategory_id = None, amount = \<lparr>coeff = 100, scale = 2\<rparr>, currency = ''RUB'',
            comment = None, created_at = 1000, effective_at = 1000\<rparr>], next_tx_id = 2\<rparr>)"
proof -
  let ?t = "\<lparr>tx_id = 1, user_id = 1, kind = EXPENSE, category_id = 3,
            subcategory_id = None, amount = \<lparr>coeff = 100, scale = 2\<rparr>, currency = ''RUB'',
            comment = None, created_at = 1000, effective_at = 1000\<rparr>"
  let ?d = "\<lparr>rows = [?t], next_tx_id = 2\<rparr>"
  have ok: "db_ok ?d" by (simp add: db_ok_def)
  have t: "?t \<in> set (rows ?d)" by simp
  have o: "(2::int) \<noteq> user_id ?t" by simp
  have cr: "create_transaction True 1000 1 EXPENSE 3 None \<lparr>coeff = 100, scale = 2\<rparr> None
      ''RUB'' None \<lparr>rows = [], next_tx_id = 1\<rparr> = Inr (?t, ?d)"
    by (simp add: create_transaction_def Let_def numeral_2_eq_2)
  from delete_by_id_scoped [OF ok t o, of True] cr show ?thesis by simp
qed


lemma hd_sort_key:
  assumes "xs \<noteq> []"
  shows "\<exists>y ys. sort_key f xs = y # ys \<and> y \<in> set xs \<and> (\<forall>x \<in> set xs. f y \<le> f x)"
proof -
  let ?s = "sort_key f xs"
  have st: "set ?s = set xs" by simp
  with assms have "?s \<noteq> []" by (cases ?s) auto
  then obtain y ys where s: "?s = y # ys" by (cases ?s) auto
  have "sorted (map f ?s)" by (rule sorted_sort_key)
  with s have "\<forall>x \<in> set ys. f y \<le> f x" by simp
  then have "\<forall>x \<in> set ?s. f y \<le> f x" by (simp add: s)
  with st have "\<forall>x \<in> set xs. f y \<le> f x" by simp
  moreover from st s have "y \<in> set xs" by auto
  ultimately show ?thesis using s by blast
qed

lemma delete_last_found:
  assumes "sort_key (\<lambda>t. - created_at t)
      (filter (\<lambda>t. user_id t = uid \<and> created_at t \<ge> now - m * 60000000) (rows d)) = t # rest"
  shows "delete_last_transaction True now uid m d =
           Inr (Some t, d\<lparr>rows := filter (\<lambda>r. tx_id r \<noteq> tx_id t) (rows d)\<rparr>)"
  unfolding delete_last_transaction_def Let_def assms by simp

lemma delete_last_none:
  assumes "filter (\<lambda>t. user_id t = uid \<and> created_at t \<ge> now - m * 60000000) (rows d) = []"
  shows "delete_last_transaction c now uid m d = Inr (None, d)"
  unfolding delete_last_transaction_def Let_def assms by simp

lemma remove_by_key:
  assumes di: "distinct (map f xs)" and x: "x \<in> set xs"
  shows "set (filter (\<lambda>y. f y \<noteq> f x) xs) = set xs - {x} \<and>
         length (filter (\<lambda>y. f y \<noteq> f x) xs) = length xs - 1"
proof -
  from di have inj: "inj_on f (set xs)" by (simp add: distinct_map)
  with x have "set (filter (\<lambda>y. f y \<noteq> f x) xs) = set xs - {x}"
    by (auto dest: inj_onD)
  moreover have "length (filter (\<lambda>y. f y = f x) xs) = 1"
    using filter_key_unique [OF di x] by simp
  then have "length (filter (\<lambda>y. f y \<noteq> f x) xs) = length xs - 1"
    using sum_length_filter_compl [of "\<lambda>y. f y = f x" xs] by simp
  ultimately show ?thesis by simp
qed

text \<open>
  Claim C7. Undo looks at the transactions of the requesting user created at or after
  five minutes before now. If there is none, it reports that there is nothing to undo and
  leaves the table as it is. Otherwise it deletes exactly one of them, none of the others
  is newer, and reports it. A failed commit raises and is not part of the claim.
\<close>

theorem undo_deletes_most_recent:
  assumes ok: "db_ok d"
  shows "(filter (\<lambda>t. user_id t = uid \<and> created_at t \<ge> now - 300000000) (rows d) = [] \<longrightarrow>
            delete_last_transaction True now uid 5 d = Inr (None, d) \<and>
            cmd_undo True now uid d = Inr (Nothing_to_undo, d)) \<and>
         (filter (\<lambda>t. user_id t = uid \<and> created_at t \<ge> now - 300000000) (rows d) \<noteq> [] \<longrightarrow>
            (\<exists>t d'. delete_last_transaction True now uid 5 d = Inr (Some t, d') \<and>
                cmd_undo True now uid d =
                  Inr (Undo_done (amount t) (currency t) (category_id t), d') \<and>
                t \<in> set (rows d) \<and> user_id t = uid \<and> created_at t \<ge> now - 300000000 \<and>
                (\<forall>r \<in> set (rows d). user_id r = uid \<and> created_at r \<ge> now - 300000000 \<longrightarrow>
                   created_at r \<le> created_at t) \<and>
                set (rows d') = set (rows d) - {t} \<and>
                length (rows d') = length (rows d) - 1 \<and>
                next_tx_id d' = next_tx_id d))"
proof -
  let ?P = "\<lambda>t. user_id t = uid \<and> created_at t \<ge> now - 5 * 60000000"
  let ?c = "filter ?P (rows d)"
  have w: "now - 300000000 = now - 5 * 60000000" by simp
  have a: "delete_last_transaction True now uid 5 d = Inr (None, d) \<and>
      cmd_undo True now uid d = Inr (Nothing_to_undo, d)" if "?c = []"
    using delete_last_none [of uid now 5 d True] that by (simp add: cmd_undo_def)
  have b: "\<exists>t d'. delete_last_transaction True now uid 5 d = Inr (Some t, d') \<and>
        cmd_undo True now uid d =
          Inr (Undo_done (amount t) (currency t) (category_id t), d') \<and>
        t \<in> set (rows d) \<and> ?P t \<and>
        (\<forall>r \<in> set (rows d). ?P r \<longrightarrow> created_at r \<le> created_at t) \<and>
        set (rows d') = set (rows d) - {t} \<and>
        length (rows d') = length (rows d) - 1 \<and>
        next_tx_id d' = next_tx_id d" if ne: "?c \<noteq> []"
  proof -
    from hd_sort_key [OF ne, of "\<lambda>t. - created_at t"]
    obtain t rest where s: "sort_key (\<lambda>t. - created_at t) ?c = t # rest"
      and tc: "t \<in> set ?c" and mx: "\<forall>x \<in> set ?c. - created_at t \<le> - created_at x"
      by blast
    let ?d' = "d\<lparr>rows := filter (\<lambda>r. tx_id r \<noteq> tx_id t) (rows d)\<rparr>"
    from s have dl: "delete_last_transaction True now uid 5 d = Inr (Some t, ?d')"
      by (rule delete_last_found)
    then have cu: "cmd_undo True now uid d =
        Inr (Undo_done (amount t) (currency t) (category_id t), ?d')"
      by (simp add: cmd_undo_def)
    from tc have t: "t \<in> set (rows d)" and pt: "?P t" by simp_all
    from mx have m: "\<forall>r \<in> set (rows d). ?P r \<longrightarrow> created_at r \<le> created_at t" by simp
    from ok have "distinct (map tx_id (rows d))" by (simp add: db_ok_def)
    from remove_by_key [OF this t]
    have "set (rows ?d') = set (rows d) - {t}" "length (rows ?d') = length (rows d) - 1"
      by simp_all
    with dl cu t pt m show ?thesis by (intro exI [of _ t] exI [of _ ?d']) simp
  qed
  from a b show ?thesis unfolding w by blast
qed

theorem undo_deletes_most_recent_witness:
  "cmd_undo True 400000000 1
     \<lparr>rows = [\<lparr>tx_id = 1, user_id = 1, kind = EXPENSE, category_id = 3,
         subcategory_id = None, amount = \<lparr>coeff = 100, scale = 2\<rparr>, currency = ''RUB'',
         comment = None, created_at = 1000, effective_at = 1000\<rparr>], next_tx_id = 2\<rparr> =
     Inr (Nothing_to_undo,
       \<lparr>rows = [\<lparr>tx_id = 1, user_id = 1, kind = EXPENSE, category_id = 3,
         subcategory_id = None, amount = \<lparr>coeff = 100, scale = 2\<rparr>, currency = ''RUB'',
         comment = None, created_at = 1000, effective_at = 1000\<rparr>], next_tx_id = 2\<rparr>) \<and>
   cmd_undo True 2000 1
     \<lparr>rows = [\<lparr>tx_id = 1, user_id = 1, kind = EXPENSE, category_id = 3,
         subcategory_id = None, amount = \<lparr>coeff = 100, scale = 2\<rparr>, currency = ''RUB'',
         comment = None, created_at = 1000, effective_at = 1000\<rparr>], next_tx_id = 2\<rparr> =
     Inr (Undo_done \<lparr>coeff = 100, scale = 2\<rparr> ''RUB'' 3, \<lparr>rows = [], next_tx_id = 2\<rparr>)"
proof -
  let ?t = "\<lparr>tx_id = 1, user_id = 1, kind = EXPENSE, category_id = 3,
         subcategory_id = None, amount = \<lparr>coeff = 100, scale = 2\<rparr>, currency = ''RUB'',
         comment = None, created_at = 1000, effective_at = 1000\<rparr>"
  let ?d = "\<lparr>rows = [?t], next_tx_id = 2\<rparr>"
  have ok: "db_ok ?d" by (simp add: db_ok_def)
  from undo_deletes_most_recent [OF ok, of 1 400000000]
  have a: "cmd_undo True 400000000 1 ?d = Inr (Nothing_to_undo, ?d)" by simp
  from undo_deletes_most_recent [OF ok, of 1 2000]
  obtain t d' where c: "cmd_undo True 2000 1 ?d =
      Inr (Undo_done (amount t) (currency t) (category_id t), d')"
    and r: "set (rows d') = set (rows ?d) - {t}" and t: "t \<in> set (rows ?d)"
    and n: "next_tx_id d' = next_tx_id ?d"
    by auto
  from t have t': "t = ?t" by simp
  with r have "rows d' = []" by simp
  with n have "d' = \<lparr>rows = [], next_tx_id = 2\<rparr>" by (cases d') simp
  with c t' have "cmd_undo True 2000 1 ?d =
      Inr (Undo_done \<lparr>coeff = 100, scale = 2\<rparr> ''RUB'' 3, \<lparr>rows = [], next_tx_id = 2\<rparr>)"
    by simp
  with a show ?thesis by simp
qed

section \<open>Properties of the amount cell\<close>

lemma is_digit_digit_char: "d < 10 \<Longrightarrow> is_digit (digit_char d)"
  by (simp add: is_digit_def digit_char_def of_char_of [where ?'a = nat, simplified] take_bit_eq_mod)

lemma digit_val_digit_char: "d < 10 \<Longrightarrow> digit_val (digit_char d) = d"
  by (simp add: digit_val_def digit_char_def take_bit_eq_mod)

lemma nat_of_digits_snoc: "nat_of_digits (xs @ [c]) = 10 * nat_of_digits xs + digit_val c"
  by (simp add: nat_of_digits_def)

lemma digits_of_nat_digits: "list_all is_digit (digits_of_nat n) \<and> digits_of_nat n \<noteq> []"
proof (induction n rule: digits_of_nat.induct)
  case (1 n)
  show ?case
  proof (cases "n < 10")
    case True
    then show ?thesis by (simp add: digits_of_nat.simps [of n] is_digit_digit_char)
  next
    case False
    with 1 have "list_all is_digit (digits_of_nat (n div 10))" by simp
    with False show ?thesis
      by (simp add: digits_of_nat.simps [of n] is_digit_digit_char)
  qed
qed

lemma nat_of_digits_of_nat: "nat_of_digits (digits_of_nat n) = n"
proof (induction n rule: digits_of_nat.induct)
  case (1 n)
  show ?case
  proof (cases "n < 10")
    case True
    then show ?thesis
      by (simp add: digits_of_nat.simps [of n] nat_of_digits_def digit_val_digit_char)
  next
    case False
    with 1 have "nat_of_digits (digits_of_nat (n div 10)) = n div 10" by simp
    with False show ?thesis
      by (simp add: digits_of_nat.simps [of n] nat_of_digits_snoc digit_val_digit_char)
  qed
qed

lemma digit_not_sep: "is_digit c \<Longrightarrow> c \<noteq> CHR '','' \<and> c \<noteq> CHR ''.'' \<and> c \<noteq> CHR '' ''"
  by (auto simp: is_digit_def)

lemma filter_group_thousands:
  "\<not> P (CHR '','') \<Longrightarrow> filter P (group_thousands ds) = filter P ds"
proof (induction ds rule: group_thousands.induct)
  case (1 ds)
  show ?case
  proof (cases "length ds \<le> 3")
    case True
    then show ?thesis by (simp add: group_thousands.simps [of ds])
  next
    case False
    with 1 have "filter P (group_thousands (take (length ds - 3) ds)) =
        filter P (take (length ds - 3) ds)" by simp
    with False "1.prems" have "filter P (group_thousands ds) =
        filter P (take (length ds - 3) ds) @ filter P (drop (length ds - 3) ds)"
      by (simp add: group_thousands.simps [of ds])
    also have "\<dots> = filter P ds"
      by (simp flip: filter_append)
    finally show ?thesis .
  qed
qed

lemma group_thousands_hd:
  "ds \<noteq> [] \<Longrightarrow> \<exists>rest. group_thousands ds = hd ds # rest"
proof (induction ds rule: group_thousands.induct)
  case (1 ds)
  show ?case
  proof (cases "length ds \<le> 3")
    case True
    then have "group_thousands ds = ds" by (simp add: group_thousands.simps [of ds])
    with "1.prems" show ?thesis by (cases ds) simp_all
  next
    case False
    then have ne: "take (length ds - 3) ds \<noteq> []" by auto
    with 1 False obtain rest where
      "group_thousands (take (length ds - 3) ds) = hd (take (length ds - 3) ds) # rest"
      by blast
    moreover from False have "hd (take (length ds - 3) ds) = hd ds"
      by (cases ds) (auto simp: take_Cons')
    ultimately show ?thesis using False by (simp add: group_thousands.simps [of ds])
  qed
qed

lemma replace_append: "replace a b (xs @ ys) = replace a b xs @ replace a b ys"
  by (simp add: replace_def)

lemma replace_Nil: "replace a b [] = []"
  by (simp add: replace_def)

lemma replace_Cons: "replace a b (c # xs) = (if c = a then b else [c]) @ replace a b xs"
  by (simp add: replace_def)

lemma unformat_filter:
  "replace (CHR '','') ''.'' (replace (CHR '' '') []
     (replace (CHR ''.'') '','' (replace (CHR '','') '' '' s))) =
   filter (\<lambda>c. c \<noteq> CHR '','' \<and> c \<noteq> CHR '' '') s"
  by (induction s) (simp_all add: replace_Cons replace_append, simp_all add: replace_def)

lemma strip_ends: "\<not> is_space a \<Longrightarrow> \<not> is_space b \<Longrightarrow> strip (a # m @ [b]) = a # m @ [b]"
  by (simp add: strip_def)

lemma parse_amount_of_form:
  assumes "clean_amount s = ds @ p @ fs" and "ds \<noteq> []" and "list_all is_digit ds"
    and "p = [] \<or> p = ''.''" and "list_all is_digit fs"
  shows "parse_amount s = Some \<lparr>coeff = int (nat_of_digits (ds @ fs)),
                                  scale = (if p = [] then 0 else length fs)\<rparr>"
proof -
  from assms have "spec_amount_form (clean_amount s)"
    unfolding spec_amount_form_def by blast
  then have "amount_re_match (clean_amount s)" by (rule form_amount_re_match)
  moreover have "py_Decimal (ds @ p @ fs) =
      \<lparr>coeff = int (nat_of_digits (ds @ fs)), scale = (if p = [] then 0 else length fs)\<rparr>"
    using assms by (intro py_Decimal_form) simp_all
  ultimately show ?thesis using assms(1) by (simp add: parse_amount_def)
qed

lemma parse_amount_cell:
  "parse_amount (amount_cell x) = Some \<lparr>coeff = int (round_hundredths x), scale = 2\<rparr>"
proof -
  define h where "h = round_hundredths x"
  define ds where "ds = digits_of_nat (h div 100)"
  define a where "a = digit_char (h mod 100 div 10)"
  define b where "b = digit_char (h mod 10)"
  have dd: "list_all is_digit ds" "ds \<noteq> []"
    using digits_of_nat_digits [of "h div 100"] by (simp_all add: ds_def)
  have da: "is_digit a" and db: "is_digit b"
    by (simp_all add: a_def b_def is_digit_digit_char)
  have fmt: "format_comma_2f x = group_thousands ds @ ''.'' @ [a, b]"
    by (simp add: format_comma_2f_def Let_def h_def ds_def a_def b_def)
  from dd obtain rest where g: "group_thousands ds = hd ds # rest"
    using group_thousands_hd [of ds] by blast
  from dd have dh: "is_digit (hd ds)" by (cases ds) simp_all
  let ?C = "\<lambda>s. replace (CHR ''.'') '','' (replace (CHR '','') '' '' s)"
  have cell: "amount_cell x = hd ds # ?C (rest @ ''.'' @ [a]) @ [b]"
    using digit_not_sep [OF dh] digit_not_sep [OF db]
    by (simp add: amount_cell_def fmt g replace_Cons replace_append replace_Nil)
  have st: "strip (amount_cell x) = amount_cell x"
    unfolding cell using dh db by (intro strip_ends) (simp_all add: is_digit_not_space)
  have "clean_amount (amount_cell x) =
      filter (\<lambda>c. c \<noteq> CHR '','' \<and> c \<noteq> CHR '' '') (format_comma_2f x)"
    by (simp add: clean_amount_def st) (simp add: amount_cell_def unformat_filter)
  also have "\<dots> = filter (\<lambda>c. c \<noteq> CHR '','' \<and> c \<noteq> CHR '' '') ds @ ''.'' @ [a, b]"
    using digit_not_sep [OF da] digit_not_sep [OF db]
    by (simp add: fmt filter_group_thousands)
  also have "filter (\<lambda>c. c \<noteq> CHR '','' \<and> c \<noteq> CHR '' '') ds = ds"
    using dd(1) digit_not_sep by (auto simp: list_all_iff filter_id_conv)
  finally have cl: "clean_amount (amount_cell x) = ds @ ''.'' @ [a, b]" .
  have "parse_amount (amount_cell x) =
      Some \<lparr>coeff = int (nat_of_digits (ds @ [a, b])),
            scale = (if ''.'' = [] then 0 else length [a, b])\<rparr>"
    using cl dd da db by (intro parse_amount_of_form) simp_all
  moreover have "nat_of_digits (ds @ [a, b]) = h"
  proof -
    have "nat_of_digits (ds @ [a, b]) = 10 * (10 * (h div 100) + h mod 100 div 10) + h mod 10"
      using nat_of_digits_snoc [of "ds @ [a]" b] nat_of_digits_snoc [of ds a]
      by (simp add: ds_def a_def b_def nat_of_digits_of_nat digit_val_digit_char)
    also have "\<dots> = 100 * (h div 100) + (10 * (h mod 100 div 10) + h mod 10)"
      by simp
    also have "10 * (h mod 100 div 10) + h mod 10 = h mod 100"
    proof -
      have "h mod 100 mod 10 = h mod 10" by (simp add: mod_mod_cancel)
      with mult_div_mod_eq [of 10 "h mod 100"] show ?thesis by (simp only:)
    qed
    also have "100 * (h div 100) + h mod 100 = h" by (rule mult_div_mod_eq)
    finally show ?thesis .
  qed
  ultimately show ?thesis by (simp add: h_def)
qed

lemma round_hundredths_exact:
  "round_hundredths d * 10 ^ scale d = nat (coeff d) * 100 \<longleftrightarrow>
   10 ^ scale d dvd nat (coeff d) * 100"
proof (cases "scale d \<le> 2")
  case True
  then have e: "(10::nat) ^ (2 - scale d) * 10 ^ scale d = 100"
    by (simp flip: power_add)
  from True have "round_hundredths d * 10 ^ scale d = nat (coeff d) * 100"
    using e by (simp add: round_hundredths_def Let_def mult.assoc)
  moreover from e have "(10::nat) ^ scale d dvd 100" by (metis dvd_triv_right)
  then have "10 ^ scale d dvd nat (coeff d) * 100" by (rule dvd_mult)
  ultimately show ?thesis by simp
next
  case False
  define n where "n = nat (coeff d)"
  define p :: nat where "p = 10 ^ (scale d - 2)"
  define h where "h = round_hundredths d"
  have pp: "0 < p" by (simp add: p_def)
  from False have "scale d - 2 + 2 = scale d" by simp
  then have "(10::nat) ^ scale d = 10 ^ (scale d - 2 + 2)" by (simp only:)
  also have "\<dots> = 10 ^ (scale d - 2) * 10 ^ 2" by (rule power_add)
  finally have k: "(10::nat) ^ scale d = 100 * p" by (simp add: p_def)
  have hq: "h = n div p \<or> h = n div p + 1" and h0: "n mod p = 0 \<Longrightarrow> h = n div p"
    using False pp by (auto simp: h_def round_hundredths_def Let_def n_def p_def)
  have n: "n = n div p * p + n mod p" by simp
  have r: "n mod p < p" using pp by simp
  have "h * p = n \<longleftrightarrow> n mod p = 0"
  proof
    assume e: "h * p = n"
    from hq show "n mod p = 0"
    proof
      assume "h = n div p"
      with e n show ?thesis by (metis add_cancel_right_right)
    next
      assume "h = n div p + 1"
      with e have "n div p * p + p = n" by (simp add: algebra_simps)
      with n r show ?thesis by linarith
    qed
  next
    assume "n mod p = 0"
    with h0 n show "h * p = n" by simp
  qed
  moreover have "n mod p = 0 \<longleftrightarrow> 100 * p dvd n * 100"
    by (simp add: dvd_eq_mod_eq_0 mult.commute)
  moreover have "h * (100 * p) = n * 100 \<longleftrightarrow> h * p = n" by (simp add: algebra_simps)
  ultimately show ?thesis by (simp add: k h_def n_def)
qed

lemma dec_val_eq_hundredths:
  assumes "0 \<le> coeff d"
  shows "dec_val \<lparr>coeff = int h, scale = 2\<rparr> = dec_val d \<longleftrightarrow>
         h * 10 ^ scale d = nat (coeff d) * 100"
proof -
  have "dec_val \<lparr>coeff = int h, scale = 2\<rparr> = dec_val d \<longleftrightarrow>
      (of_int (int h) :: rat) * 10 ^ scale d = of_int (coeff d) * 100"
    by (simp add: dec_val_def field_simps)
  also have "\<dots> \<longleftrightarrow> (of_int (int h * 10 ^ scale d) :: rat) = of_int (coeff d * 100)"
    by simp
  also have "\<dots> \<longleftrightarrow> int h * 10 ^ scale d = coeff d * 100"
    by (rule of_int_eq_iff)
  also have "\<dots> \<longleftrightarrow> int (h * 10 ^ scale d) = int (nat (coeff d) * 100)"
    using assms by simp
  also have "\<dots> \<longleftrightarrow> h * 10 ^ scale d = nat (coeff d) * 100"
    by (rule int_int_eq)
  finally show ?thesis .
qed

lemma parse_amount_coeff: "parse_amount s = Some d \<Longrightarrow> 0 \<le> coeff d"
  by (auto simp: parse_amount_def py_Decimal_def Let_def split: if_splits)

text \<open>
  Claim C9, as stated, fails: "1.001" is accepted by the grammar, the cell shows it with
  two decimals as "1,00", and that parses to 1.00.
\<close>

theorem format_roundtrip_counterexample:
  "parse_amount ''1.001'' = Some \<lparr>coeff = 1001, scale = 3\<rparr> \<and>
   amount_cell \<lparr>coeff = 1001, scale = 3\<rparr> = ''1,00'' \<and>
   parse_amount ''1,00'' = Some \<lparr>coeff = 100, scale = 2\<rparr> \<and>
   dec_val \<lparr>coeff = 100, scale = 2\<rparr> \<noteq> dec_val \<lparr>coeff = 1001, scale = 3\<rparr>"
proof (intro conjI)
  show "parse_amount ''1.001'' = Some \<lparr>coeff = 1001, scale = 3\<rparr>" by code_simp
  show "amount_cell \<lparr>coeff = 1001, scale = 3\<rparr> = ''1,00''" by code_simp
  show "parse_amount ''1,00'' = Some \<lparr>coeff = 100, scale = 2\<rparr>" by code_simp
  show "dec_val \<lparr>coeff = 100, scale = 2\<rparr> \<noteq> dec_val \<lparr>coeff = 1001, scale = 3\<rparr>"
    by (simp add: dec_val_def)
qed

text \<open>
  Claim C9, amended. For every valid amount string, parsing the cell that shows the parsed
  value gives that value rounded to two decimals (ties to even). It gives the parsed value
  itself exactly when that value is a whole number of hundredths, in particular whenever
  the string has at most two fractional digits. The formatting expression is applied to
  the decimal that \<open>parse_amount\<close> returns.
\<close>

theorem format_roundtrip:
  assumes "parse_amount s = Some d"
  shows "parse_amount (amount_cell d) = Some \<lparr>coeff = int (round_hundredths d), scale = 2\<rparr> \<and>
         (map_option dec_val (parse_amount (amount_cell d)) = map_option dec_val (parse_amount s)
            \<longleftrightarrow> 10 ^ scale d dvd nat (coeff d) * 100) \<and>
         (scale d \<le> 2 \<longrightarrow>
            map_option dec_val (parse_amount (amount_cell d)) =
              map_option dec_val (parse_amount s))"
proof -
  have p: "parse_amount (amount_cell d) = Some \<lparr>coeff = int (round_hundredths d), scale = 2\<rparr>"
    by (rule parse_amount_cell)
  from assms have c: "0 \<le> coeff d" by (rule parse_amount_coeff)
  have i: "map_option dec_val (parse_amount (amount_cell d)) = map_option dec_val (parse_amount s)
      \<longleftrightarrow> 10 ^ scale d dvd nat (coeff d) * 100"
    using dec_val_eq_hundredths [OF c, of "round_hundredths d"] round_hundredths_exact [of d]
    by (simp add: p assms)
  have "10 ^ scale d dvd nat (coeff d) * 100" if "scale d \<le> 2"
  proof -
    from that have "(10::nat) ^ (2 - scale d) * 10 ^ scale d = 100" by (simp flip: power_add)
    then have "(10::nat) ^ scale d dvd 100" by (metis dvd_triv_right)
    then show ?thesis by (rule dvd_mult)
  qed
  with p i show ?thesis by blast
qed

theorem format_roundtrip_witness:
  "parse_amount (amount_cell \<lparr>coeff = 250, scale = 2\<rparr>) = Some \<lparr>coeff = 250, scale = 2\<rparr> \<and>
   map_option dec_val (parse_amount (amount_cell \<lparr>coeff = 250, scale = 2\<rparr>)) =
     map_option dec_val (parse_amount ''2,50'')"
proof -
  have a: "parse_amount ''2,50'' = Some \<lparr>coeff = 250, scale = 2\<rparr>" by code_simp
  have r: "round_hundredths \<lparr>coeff = 250, scale = 2\<rparr> = 250"
    by (simp add: round_hundredths_def)
  from format_roundtrip [OF a] r a show ?thesis by simp
qed

section \<open>Properties of the report\<close>

text \<open>The exponent brackets the number, and rounding moves a number by at most half a
  unit in the last place.\<close>

lemma pow2_pos: "0 < pow2 e"
  by (simp add: pow2_def)

lemma pow2_nat: "0 \<le> e \<Longrightarrow> pow2 e = 2 ^ nat e"
  by (simp add: pow2_def)

lemma pow2_neg: "0 \<le> e \<Longrightarrow> pow2 (- e) = 1 / 2 ^ nat e"
  by (cases "e = 0") (simp_all add: pow2_def)

lemma pow2_Suc: "pow2 (e + 1) = 2 * pow2 e"
proof (cases "0 \<le> e")
  case True
  then show ?thesis by (simp add: pow2_def nat_add_distrib)
next
  case False
  then have e: "e < 0" by simp
  show ?thesis
  proof (cases "e = - 1")
    case True
    then show ?thesis by (simp add: pow2_def)
  next
    case False
    with e have "e + 1 < 0" by simp
    moreover from e have "nat (- e) = Suc (nat (- e - 1))" by simp
    moreover have "- (e + 1) = - e - 1" by simp
    ultimately show ?thesis using e by (simp add: pow2_def)
  qed
qed

lemma binary_exponent_bounds:
  assumes "x \<noteq> 0"
  shows "pow2 (binary_exponent x) \<le> \<bar>x\<bar> \<and> \<bar>x\<bar> < pow2 (binary_exponent x + 1)"
proof (cases "1 \<le> \<bar>x\<bar>")
  case True
  define n where "n = \<lfloor>\<bar>x\<bar>\<rfloor>"
  from True have n: "0 < n" by (simp add: n_def)
  from bitlen_bounds [OF n] have lo: "2 ^ nat (bitlen n - 1) \<le> n" and hi: "n < 2 ^ nat (bitlen n)"
    by simp_all
  from n have b: "1 \<le> bitlen n" by (simp add: bitlen_alt_def)
  have e: "binary_exponent x = bitlen n - 1" using True by (simp add: binary_exponent_def n_def)
  have "pow2 (bitlen n - 1) = of_int (2 ^ nat (bitlen n - 1))"
    using b by (simp add: pow2_nat)
  also have "\<dots> \<le> of_int n" using lo by (simp only: of_int_le_iff)
  also have "\<dots> \<le> \<bar>x\<bar>" by (simp add: n_def)
  finally have l: "pow2 (bitlen n - 1) \<le> \<bar>x\<bar>" .
  have "\<bar>x\<bar> < of_int (n + 1)" unfolding n_def by linarith
  also have "\<dots> \<le> of_int (2 ^ nat (bitlen n))"
  proof -
    from hi have "n + 1 \<le> 2 ^ nat (bitlen n)" by simp
    then show ?thesis by (simp only: of_int_le_iff)
  qed
  also have "\<dots> = pow2 (bitlen n)" using b by (simp add: pow2_nat)
  finally have "\<bar>x\<bar> < pow2 (bitlen n - 1 + 1)" by simp
  with l show ?thesis by (simp only: e)
next
  case False
  with assms have x: "0 < \<bar>x\<bar>" "\<bar>x\<bar> < 1" by simp_all
  define y where "y = 1 / \<bar>x\<bar>"
  define m where "m = \<lceil>y\<rceil> - 1"
  from x have y: "1 < y" by (simp add: y_def)
  then have "1 < \<lceil>y\<rceil>" by (simp add: less_ceiling_iff)
  then have m: "0 < m" by (simp add: m_def)
  have my: "of_int m < y" "y \<le> of_int m + 1" unfolding m_def by linarith+
  from bitlen_bounds [OF m] have lo: "2 ^ nat (bitlen m - 1) \<le> m" and hi: "m < 2 ^ nat (bitlen m)"
    by simp_all
  from m have b: "1 \<le> bitlen m" by (simp add: bitlen_alt_def)
  have e: "binary_exponent x = - bitlen m" using False by (simp add: binary_exponent_def m_def y_def)
  have xy: "\<bar>x\<bar> = 1 / y" using x by (simp add: y_def)
  have "y \<le> of_int (m + 1)" using my by simp
  also have "\<dots> \<le> of_int (2 ^ nat (bitlen m))"
  proof -
    from hi have "m + 1 \<le> 2 ^ nat (bitlen m)" by simp
    then show ?thesis by (simp only: of_int_le_iff)
  qed
  finally have "y \<le> 2 ^ nat (bitlen m)" by simp
  with y have "1 / 2 ^ nat (bitlen m) \<le> 1 / y" by (simp add: frac_le)
  then have l: "pow2 (- bitlen m) \<le> \<bar>x\<bar>" using b by (simp add: pow2_neg xy)
  have "(2::rat) ^ nat (bitlen m - 1) = of_int (2 ^ nat (bitlen m - 1))" by simp
  also have "\<dots> \<le> of_int m" using lo by (simp only: of_int_le_iff)
  also have "\<dots> < y" by (rule my)
  finally have "(2::rat) ^ nat (bitlen m - 1) < y" .
  then have "1 / y < 1 / 2 ^ nat (bitlen m - 1)" by (simp add: frac_less2)
  moreover have "pow2 (- bitlen m + 1) = 1 / 2 ^ nat (bitlen m - 1)"
    using pow2_neg [of "bitlen m - 1"] b by simp
  ultimately have "\<bar>x\<bar> < pow2 (- bitlen m + 1)" by (simp add: xy)
  with l show ?thesis by (simp only: e)
qed

lemma round_half_even_error: "\<bar>of_int (round_half_even y) - y\<bar> \<le> 1 / 2"
proof -
  have "of_int \<lfloor>y\<rfloor> \<le> y" "y < of_int \<lfloor>y\<rfloor> + 1" by linarith+
  then show ?thesis unfolding round_half_even_def Let_def by (auto simp: abs_le_iff)
qed

lemma float64_error:
  "\<bar>float64 x - x\<bar> \<le> pow2 (binary_exponent x - 52) / 2"
proof (cases "x = 0")
  case True
  then show ?thesis using pow2_pos [of "binary_exponent x - 52"] by (simp add: float64_def)
next
  case False
  define u where "u = pow2 (binary_exponent x - 52)"
  have u: "0 < u" by (simp add: u_def pow2_pos)
  have "float64 x - x = (of_int (round_half_even (x / u)) - x / u) * u"
    using False u by (simp add: float64_def Let_def u_def [symmetric] algebra_simps)
  then have "\<bar>float64 x - x\<bar> = \<bar>of_int (round_half_even (x / u)) - x / u\<bar> * u"
    using u by (simp add: abs_mult)
  also have "\<dots> \<le> 1 / 2 * u"
    using round_half_even_error [of "x / u"] u by (intro mult_right_mono) simp_all
  finally show ?thesis by (simp add: u_def)
qed











lemma by_subcategory_rows_nonempty:
  assumes "df \<noteq> []"
  shows "concat (map (\<lambda>c. map (\<lambda>sc. h c sc)
            (sort (remdups (map r_subcategory (filter (\<lambda>r. r_category r = c) df)))))
          (sort (remdups (map r_category df)))) \<noteq> []"
proof -
  from assms obtain r where r: "r \<in> set df" by (cases df) auto
  then have c: "r_category r \<in> set (sort (remdups (map r_category df)))" by simp
  from r have "filter (\<lambda>x. r_category x = r_category r) df \<noteq> []"
    by (auto simp: filter_empty_conv)
  then have "remdups (map r_subcategory (filter (\<lambda>x. r_category x = r_category r) df)) \<noteq> []"
    by simp
  moreover have "length (map (\<lambda>sc. h (r_category r) sc)
      (sort (remdups (map r_subcategory (filter (\<lambda>x. r_category x = r_category r) df))))) =
      length (remdups (map r_subcategory (filter (\<lambda>x. r_category x = r_category r) df)))"
    by simp
  ultimately have "map (\<lambda>sc. h (r_category r) sc)
      (sort (remdups (map r_subcategory (filter (\<lambda>x. r_category x = r_category r) df)))) \<noteq> []"
    by (metis length_0_conv)
  with c show ?thesis by (auto simp: concat_eq_Nil_conv)
qed

lemma shown_rows:
  assumes "df \<noteq> []"
  shows "table_rows (case snd (aggregate_df lib df mode) of
           None \<Rightarrow> Detail df | Some t \<Rightarrow> fst (aggregate_df lib df mode)) \<noteq> 0"
proof -
  have s: "length (concat (map (\<lambda>c. map (\<lambda>sc. h c sc)
            (sort (remdups (map r_subcategory (filter (\<lambda>r. r_category r = c) df)))))
          (sort (remdups (map r_category df))))) \<noteq> 0" for h :: "string \<Rightarrow> string \<Rightarrow> string \<times> string \<times> rat"
    using by_subcategory_rows_nonempty [OF assms, of h] by simp
  show ?thesis
    using assms s unfolding aggregate_df_def table_rows_def
    by (simp del: length_concat length_0_conv)
qed

lemma build_report_other:
  assumes "\<not> (aggregation = Some ''by_category_sections'' \<and> k = EXPENSE)"
  shows "build_report lib ilike now d cm uid k q aggregation =
     (if report_dataframe ilike now d cm uid k q = [] then Inl IndexError
      else Inr \<lparr>rep_summary = \<lparr>s_kind = k, s_total = series_sum lib (map r_amount (report_dataframe ilike now d cm uid k q)),
               s_count = length (report_dataframe ilike now d cm uid k q)\<rparr>,
             rep_sheets = write_excel now (report_dataframe ilike now d cm uid k q) k
               \<lparr>s_kind = k, s_total = series_sum lib (map r_amount (report_dataframe ilike now d cm uid k q)),
               s_count = length (report_dataframe ilike now d cm uid k q)\<rparr>
               (case snd (aggregate_df lib (report_dataframe ilike now d cm uid k q) aggregation) of
                  None \<Rightarrow> None
                | Some t \<Rightarrow> Some (fst (aggregate_df lib (report_dataframe ilike now d cm uid k q) aggregation), t)) [],
             rep_picture = Single_table
               (case snd (aggregate_df lib (report_dataframe ilike now d cm uid k q) aggregation) of
                  None \<Rightarrow> Detail (report_dataframe ilike now d cm uid k q)
                | Some t \<Rightarrow> fst (aggregate_df lib (report_dataframe ilike now d cm uid k q) aggregation))
               \<lparr>s_kind = k, s_total = series_sum lib (map r_amount (report_dataframe ilike now d cm uid k q)),
               s_count = length (report_dataframe ilike now d cm uid k q)\<rparr>
               (snd (aggregate_df lib (report_dataframe ilike now d cm uid k q) aggregation))\<rparr>)"
proof -
  define df where "df = report_dataframe ilike now d cm uid k q"
  show ?thesis
  proof (cases "df = []")
    case True
    have "aggregate_df lib [] aggregation = (Detail [], None)"
      by (simp add: aggregate_df_def)
    then show ?thesis
      using True unfolding build_report_def df_def [symmetric] Let_def if_not_P [OF assms]
      by (simp add: write_png_def render_table_on_axis_def table_rows_def)
  next
    case False
    from shown_rows [OF False, of lib aggregation]
    have "render_table_on_axis (case snd (aggregate_df lib df aggregation) of
        None \<Rightarrow> Detail df | Some t \<Rightarrow> fst (aggregate_df lib df aggregation)) = None"
      by (simp add: render_table_on_axis_def)
    then show ?thesis
      using False unfolding build_report_def df_def [symmetric] Let_def if_not_P [OF assms]
      by (simp add: write_png_def case_prod_beta)
  qed
qed



lemma report_dataframe_empty:
  "report_dataframe ilike now \<lparr>rows = [], next_tx_id = n\<rparr> cm uid k q = []"
  by (simp add: report_dataframe_def fetch_transactions_def build_dataframe_def Let_def)

lemma build_report_income_sections:
  "build_report lib ilike now d cm uid INCOME q (Some ''by_category_sections'') =
     (if report_dataframe ilike now d cm uid INCOME q = [] then Inl IndexError
      else Inr \<lparr>rep_summary =
               \<lparr>s_kind = INCOME,
                 s_total = series_sum lib (map r_amount (report_dataframe ilike now d cm uid INCOME q)),
                 s_count = length (report_dataframe ilike now d cm uid INCOME q)\<rparr>,
             rep_sheets =
               [(Data_sheet, Frame (Detail (report_dataframe ilike now d cm uid INCOME q))),
                (Summary_sheet, Summary_frame
                   \<lparr>s_kind = INCOME,
                     s_total = series_sum lib
                       (map r_amount (report_dataframe ilike now d cm uid INCOME q)),
                     s_count = length (report_dataframe ilike now d cm uid INCOME q)\<rparr>),
                (Meta_sheet, Meta_frame now INCOME)],
             rep_picture = Single_table (Detail (report_dataframe ilike now d cm uid INCOME q))
               \<lparr>s_kind = INCOME,
                 s_total = series_sum lib (map r_amount (report_dataframe ilike now d cm uid INCOME q)),
                 s_count = length (report_dataframe ilike now d cm uid INCOME q)\<rparr> None\<rparr>)"
proof -
  have n: "\<not> (Some ''by_category_sections'' = Some ''by_category_sections'' \<and> INCOME = EXPENSE)"
    by simp
  have a: "aggregate_df lib df (Some ''by_category_sections'') = (Detail df, None)" for df
    by (simp add: aggregate_df_def)
  show ?thesis unfolding build_report_other [OF n] a by (simp add: write_excel_def)
qed







text \<open>
  Claim C4, as stated: \<^verbatim>\<open>overall\<close> always gives two rows, also on an empty set. It does
  not: on an empty data frame \<^verbatim>\<open>_aggregate_df\<close> returns the frame itself and no title,
  a table of no rows.
\<close>

theorem overall_empty_counterexample:
  "aggregate_df plain_library [] (Some ''overall'') = (Detail [], None) \<and>
   table_rows (fst (aggregate_df plain_library [] (Some ''overall''))) = 0 \<and>
   table_rows (fst (aggregate_df plain_library [] (Some ''overall''))) \<noteq> 2"
  by (simp add: aggregate_df_def table_rows_def)

text \<open>
  Claim C4, amended. On a data frame with at least one row \<^verbatim>\<open>_aggregate_df\<close> gives for
  the mode \<^verbatim>\<open>overall\<close> exactly two rows, the sum of the amounts and the number of rows,
  under the title of the mode. On an empty data frame it gives the empty frame itself and
  no title, a table of no rows, and raises nothing.
\<close>

theorem overall_rows:
  "aggregate_df lib df (Some ''overall'') =
     (if df = [] then (Detail [], None)
      else (Indicators [(Sum_indicator, series_sum lib (map r_amount df)),
                        (Count_indicator, of_nat (length df))], Some Overall_title)) \<and>
   table_rows (fst (aggregate_df lib df (Some ''overall''))) = (if df = [] then 0 else 2)"
  by (simp add: aggregate_df_def table_rows_def)

text \<open>
  Claim C10, where the code departs from it. A report of incomes with the mode
  \<^verbatim>\<open>by_category_sections\<close> on an empty filtered set raises \<^verbatim>\<open>IndexError\<close> while the
  empty table is drawn, where the claim says that the request does not fail. On a filtered
  set that is not empty the report is, as the claim says, one table of the unaggregated
  rows and the three standard sheets, see \<open>build_report_income_sections\<close>. The branch of
  the sections of expenses draws an empty set as a picture that says "no data".
\<close>

theorem income_sections_empty_raises:
  "build_report lib ilike now \<lparr>rows = [], next_tx_id = n\<rparr> cm uid INCOME q
     (Some ''by_category_sections'') = Inl IndexError \<and>
   build_report plain_library ilike now \<lparr>rows = [], next_tx_id = n\<rparr> cm uid EXPENSE q
     (Some ''by_category_sections'') =
     Inr \<lparr>rep_summary = \<lparr>s_kind = EXPENSE, s_total = 0, s_count = 0\<rparr>,
          rep_sheets =
            [(Data_sheet, Frame (Detail [])),
             (Summary_sheet, Summary_frame \<lparr>s_kind = EXPENSE, s_total = 0, s_count = 0\<rparr>),
             (Meta_sheet, Meta_frame now EXPENSE)],
          rep_picture = No_data EXPENSE\<rparr>"
proof
  show "build_report lib ilike now \<lparr>rows = [], next_tx_id = n\<rparr> cm uid INCOME q
     (Some ''by_category_sections'') = Inl IndexError"
    by (simp add: build_report_income_sections report_dataframe_empty)
  show "build_report plain_library ilike now \<lparr>rows = [], next_tx_id = n\<rparr> cm uid EXPENSE q
     (Some ''by_category_sections'') =
     Inr \<lparr>rep_summary = \<lparr>s_kind = EXPENSE, s_total = 0, s_count = 0\<rparr>,
          rep_sheets =
            [(Data_sheet, Frame (Detail [])),
             (Summary_sheet, Summary_frame \<lparr>s_kind = EXPENSE, s_total = 0, s_count = 0\<rparr>),
             (Meta_sheet, Meta_frame now EXPENSE)],
          rep_picture = No_data EXPENSE\<rparr>"
    unfolding build_report_def report_dataframe_empty Let_def
    by (simp add: build_category_sections_def write_excel_def write_png_sections_def
        plain_library_def)
qed

end
